theory Spec2Isabelle
  imports Main
begin

section \<open>Strings and paths\<close>

text \<open>
  JavaScript strings are modelled as \<^typ>\<open>string\<close>: the program tells characters apart
  only as the dollar sign, the backslash, the slash and the rest.
\<close>

abbreviation dollar :: char where
  "dollar \<equiv> CHR ''$''"

abbreviation backslash :: char where
  "backslash \<equiv> CHR 0x5C"

text \<open>\<^verbatim>\<open>s.endsWith(suffix)\<close>\<close>

definition endsWith :: "string \<Rightarrow> string \<Rightarrow> bool" where
  "endsWith s suf =
     (length suf \<le> length s \<and> drop (length s - length suf) s = suf)"

text \<open>
  \<^verbatim>\<open>s.replace(pattern, replacement)\<close> with a string pattern: the first occurrence only.
  (The replacement used by the program holds no dollar sign, so no replacement pattern
  is expanded.)
\<close>

fun replaceFirst :: "string \<Rightarrow> string \<Rightarrow> string \<Rightarrow> string" where
  "replaceFirst pat rep [] = (if pat = [] then rep else [])"
| "replaceFirst pat rep (x # xs) =
     (if take (length pat) (x # xs) = pat then rep @ drop (length pat) (x # xs)
      else x # replaceFirst pat rep xs)"

text \<open>\<^verbatim>\<open>path.dirname\<close> on POSIX paths that do not end with a slash.\<close>

definition dirname :: "string \<Rightarrow> string" where
  "dirname p =
     (let upto = rev (dropWhile (\<lambda>ch. ch \<noteq> CHR ''/'') (rev p));
          d = rev (dropWhile (\<lambda>ch. ch = CHR ''/'') (rev upto))
      in if upto = [] then ''.'' else if d = [] then ''/'' else d)"

text \<open>The directory and every ancestor of it, outermost first (the root left out).\<close>

definition dirChain :: "string \<Rightarrow> string list" where
  "dirChain p =
     filter (\<lambda>q. q \<noteq> [])
       (map (\<lambda>k. take k p)
          (filter (\<lambda>k. k = length p \<or> p ! k = CHR ''/'') [0..<Suc (length p)]))"

section \<open>The two patterns\<close>

text \<open>
  A scan of a text by a global regular expression, as \<^verbatim>\<open>String.prototype.replace\<close>
  runs it: the characters no match covers, and the matches from left to right, each with
  the matched text and its capture group (the two arguments \<^verbatim>\<open>(_, texStr)\<close> of the
  callbacks).
\<close>

datatype piece = Plain char | Span string string

text \<open>
  \<^verbatim>\<open>/\$\$(.*?)\$\$/gs\<close>. After the opening pair the lazy group grows one character at a
  time (any character: the flag \<^verbatim>\<open>s\<close>) until a pair of dollars follows.
  \<open>lazyBody\<close> returns the capture and the text after the closing pair.
\<close>

fun lazyBody :: "string \<Rightarrow> (string \<times> string) option" where
  "lazyBody (x # y # zs) =
     (if x = dollar \<and> y = dollar then Some ([], zs)
      else (case lazyBody (y # zs) of
              None \<Rightarrow> None
            | Some (c, r) \<Rightarrow> Some (x # c, r)))"
| "lazyBody _ = None"

fun matchDisplay :: "string \<Rightarrow> (string \<times> string) option" where
  "matchDisplay (x # y # zs) =
     (if x = dollar \<and> y = dollar then lazyBody zs else None)"
| "matchDisplay _ = None"

text \<open>
  \<^verbatim>\<open>/(?<!\\)\$([^\$]+?)\$/g\<close>, tried at a position whose preceding character is \<open>prev\<close>
  (\<open>None\<close> at the start of the text). The group takes characters other than the dollar,
  at least one, and the first dollar after them closes the match; the end of the text
  before that dollar, or a dollar right after the opening one, fails the match.
\<close>

fun matchInline :: "char option \<Rightarrow> string \<Rightarrow> (string \<times> string) option" where
  "matchInline prev [] = None"
| "matchInline prev (x # xs) =
     (if x = dollar \<and> prev \<noteq> Some backslash then
        (let c = takeWhile (\<lambda>ch. ch \<noteq> dollar) xs;
             r = dropWhile (\<lambda>ch. ch \<noteq> dollar) xs
         in if c = [] then None
            else (case r of [] \<Rightarrow> None | _ # r' \<Rightarrow> Some (c, r')))
      else None)"

lemma lazyBody_length:
  "lazyBody s = Some (c, r) \<Longrightarrow> length s = length c + length r + 2"
  by (induction s arbitrary: c rule: lazyBody.induct)
     (auto split: if_splits option.splits)

lemma matchDisplay_length:
  "matchDisplay s = Some (c, r) \<Longrightarrow> length s = length c + length r + 4"
  by (cases s rule: matchDisplay.cases) (auto split: if_splits dest: lazyBody_length)

lemma matchInline_length:
  assumes "matchInline prev s = Some (c, r)"
  shows "length s = length c + length r + 2"
proof (cases s)
  case Nil
  with assms show ?thesis by simp
next
  case (Cons x xs)
  have "length (takeWhile (\<lambda>ch. ch \<noteq> dollar) xs) + length (dropWhile (\<lambda>ch. ch \<noteq> dollar) xs)
          = length xs"
    by (metis length_append takeWhile_dropWhile_id)
  with assms Cons show ?thesis
    by (auto simp: Let_def split: if_splits list.splits)
qed

text \<open>The global scan: the leftmost match, then on from its end.\<close>

function scanDisplay :: "string \<Rightarrow> piece list" where
  "scanDisplay [] = []"
| "scanDisplay (x # xs) =
     (case matchDisplay (x # xs) of
        Some (c, r) \<Rightarrow> Span (''$$'' @ c @ ''$$'') c # scanDisplay r
      | None \<Rightarrow> Plain x # scanDisplay xs)"
  by pat_completeness auto
termination
  by (relation "measure length")
     (auto dest!: matchDisplay_length simp del: matchDisplay.simps)

function scanInline :: "char option \<Rightarrow> string \<Rightarrow> piece list" where
  "scanInline prev [] = []"
| "scanInline prev (x # xs) =
     (case matchInline prev (x # xs) of
        Some (c, r) \<Rightarrow> Span (dollar # c @ [dollar]) c # scanInline (Some dollar) r
      | None \<Rightarrow> Plain x # scanInline (Some x) xs)"
  by pat_completeness auto
termination
  by (relation "measure (\<lambda>(prev, s). length s)")
     (auto dest!: matchInline_length simp del: matchInline.simps)

text \<open>\<^verbatim>\<open>regex.test(text)\<close> on a fresh regular expression: is there a match.\<close>

fun hasSpan :: "piece list \<Rightarrow> bool" where
  "hasSpan [] = False"
| "hasSpan (Plain x # ps) = hasSpan ps"
| "hasSpan (Span m c # ps) = True"

text \<open>The text a scan was made of.\<close>

fun sourceOf :: "piece list \<Rightarrow> string" where
  "sourceOf [] = []"
| "sourceOf (Plain x # ps) = x # sourceOf ps"
| "sourceOf (Span m c # ps) = m @ sourceOf ps"

text \<open>The capture groups of the matches of a scan, from left to right.\<close>

fun captures :: "piece list \<Rightarrow> string list" where
  "captures [] = []"
| "captures (Plain x # ps) = captures ps"
| "captures (Span m c # ps) = c # captures ps"

section \<open>Errors and the external collaborators\<close>

text \<open>
  The program has no \<^verbatim>\<open>try\<close>: a library call that throws ends the process. The
  library calls that can throw are results in a sum type: reading a path
  (\<^verbatim>\<open>fs.statSync\<close>, \<^verbatim>\<open>fs.readFileSync\<close>, \<^verbatim>\<open>fs.copyFileSync\<close>), the typesetter,
  \<^verbatim>\<open>JSON.parse\<close>, and a property read on \<^verbatim>\<open>null\<close>. Writes are taken to succeed.
\<close>

datatype error = IOError string | RenderError string | SyntaxError | TypeError

text \<open>
  The DOM, as far as the program reads it: text nodes (\<^verbatim>\<open>nodeType\<close> 3), comments, and
  elements with their namespace, their \<^verbatim>\<open>nodeName\<close> (upper case for the HTML elements of an
  HTML document, the case of the tag for the others), their attributes and their
  \<^verbatim>\<open>childNodes\<close>. The namespace decides what \<^verbatim>\<open>className\<close> is: a string on an HTML or a
  MathML element, an \<^verbatim>\<open>SVGAnimatedString\<close> object on an SVG element. A comment has no class
  and no child, and a name that is none of the three the walk stops at, so the walk
  passes it by.
\<close>

datatype namespace = Html | Svg | MathML

datatype node =
    Text string
  | Comment string
  | Element namespace string "(string \<times> string) list" "node list"

text \<open>
  A parsed document: \<open>head\<close> holds the child nodes of \<^verbatim>\<open>document.head\<close>, and \<open>body\<close> the
  nodes that stand where the parser put the body element (that element alone after
  parsing; what replaced it after the transformation). \<open>prolog\<close> stands for what the
  program never touches (the doctype, the attributes of the root and of the head).
\<close>

record document =
  prolog :: string
  head :: "node list"
  body :: "node list"

datatype fsnode = Directory | Regular string | Unreadable

text \<open>
  The typesetter \<^verbatim>\<open>mjPage\<close> is one object shared by all conversions of the process, so
  its answer may depend on the conversions made before: they are its state, the list of
  the (TeX string, display flag) pairs converted so far.
\<close>

type_synonym calls = "(string \<times> bool) list"

text \<open>
  What the program imports and does not define:
  \<^item> \<open>md5hex\<close>: \<^verbatim>\<open>crypto.createHash('md5').update(content).digest('hex')\<close>;
  \<^item> \<open>convert\<close>: \<^verbatim>\<open>adaptor.innerHTML(mjPage.convert(texStr, {display}))\<close>;
  \<^item> \<open>styleSheet\<close>: \<^verbatim>\<open>adaptor.innerHTML(svg.styleSheet(mjPage))\<close>;
  \<^item> \<open>parseFragment\<close>: the child nodes of a \<^verbatim>\<open>div\<close> after \<^verbatim>\<open>wrapper.innerHTML = text\<close>;
  \<^item> \<open>parseDocument\<close>: \<^verbatim>\<open>new JSDOM(html).window.document\<close>; \<open>serialize\<close>: \<^verbatim>\<open>dom.serialize()\<close>;
  \<^item> \<open>globSync\<close>: \<^verbatim>\<open>glob.sync(pattern)\<close> over the file system;
  \<^item> \<open>jsonParse\<close>, \<open>jsonStringify\<close>: \<^verbatim>\<open>JSON.parse\<close> and \<^verbatim>\<open>JSON.stringify(cache, null, 2)\<close>.
\<close>

record collab =
  md5hex :: "string \<Rightarrow> string"
  convert :: "calls \<Rightarrow> string \<Rightarrow> bool \<Rightarrow> error + string"
  styleSheet :: "calls \<Rightarrow> string"
  parseFragment :: "string \<Rightarrow> node list"
  parseDocument :: "string \<Rightarrow> document"
  serialize :: "document \<Rightarrow> string"
  globSync :: "string \<Rightarrow> (string \<Rightarrow> fsnode option) \<Rightarrow> string list"
  jsonParse :: "string \<Rightarrow> error + (string \<Rightarrow> string option)"
  jsonStringify :: "(string \<Rightarrow> string option) \<Rightarrow> string"

definition mjConvert :: "collab \<Rightarrow> string \<Rightarrow> bool \<Rightarrow> calls \<Rightarrow> error + (string \<times> calls)" where
  "mjConvert c texStr display h =
     (case convert c h texStr display of
        Inl e \<Rightarrow> Inl e
      | Inr svg \<Rightarrow> Inr (svg, h @ [(texStr, display)]))"

section \<open>processNode\<close>

definition containerOpen :: string where
  \<open>containerOpen =
     ''<mjx-container display="true" style="display: block; text-align: center; margin: 1em 0;">''\<close>

definition containerClose :: string where
  "containerClose = ''</mjx-container>''"

text \<open>The two callbacks handed to \<^verbatim>\<open>text.replace\<close>.\<close>

definition displayCallback :: "collab \<Rightarrow> string \<Rightarrow> calls \<Rightarrow> error + (string \<times> calls)" where
  "displayCallback c texStr h =
     (case mjConvert c texStr True h of
        Inl e \<Rightarrow> Inl e
      | Inr (svg, h') \<Rightarrow> Inr (containerOpen @ svg @ containerClose, h'))"

definition inlineCallback :: "collab \<Rightarrow> string \<Rightarrow> calls \<Rightarrow> error + (string \<times> calls)" where
  "inlineCallback c texStr h = mjConvert c texStr False h"

text \<open>
  \<^verbatim>\<open>text.replace(regex, callback)\<close> on a scan: the callback runs once for each match, from
  left to right, and its result stands for the match.
\<close>

fun substitute ::
  "(string \<Rightarrow> calls \<Rightarrow> error + (string \<times> calls)) \<Rightarrow> piece list \<Rightarrow> calls \<Rightarrow> error + (string \<times> calls)"
where
  "substitute f [] h = Inr ([], h)"
| "substitute f (Plain x # ps) h =
     (case substitute f ps h of
        Inl e \<Rightarrow> Inl e
      | Inr (s, h') \<Rightarrow> Inr (x # s, h'))"
| "substitute f (Span m texStr # ps) h =
     (case f texStr h of
        Inl e \<Rightarrow> Inl e
      | Inr (out, h1) \<Rightarrow>
          (case substitute f ps h1 of
             Inl e \<Rightarrow> Inl e
           | Inr (s, h') \<Rightarrow> Inr (out @ s, h')))"

text \<open>
  The state of a walk: the flag \<^verbatim>\<open>needsUpdate\<close> of \<^verbatim>\<open>processHtml\<close>, and the typesetter's
  state.
\<close>

record walk =
  needsUpdate :: bool
  converted :: calls

text \<open>
  \<^verbatim>\<open>node.className\<close>, as far as it is a string: on an HTML or MathML element the value of
  the class attribute, the empty string without one. \<open>None\<close> is a value that is no string
  and so is \<^verbatim>\<open>===\<close> to none: the \<^verbatim>\<open>SVGAnimatedString\<close> of an SVG element, and \<^verbatim>\<open>undefined\<close>
  on a node that is no element.
\<close>

fun className :: "node \<Rightarrow> string option" where
  "className (Element sp n a kids) =
     (if sp = Svg then None
      else (case map_of a ''class'' of None \<Rightarrow> Some [] | Some v \<Rightarrow> Some v))"
| "className _ = None"

text \<open>\<^verbatim>\<open>node.textContent\<close>: the text of the descendants, comments left out.\<close>

fun textContent :: "node \<Rightarrow> string" and descendantText :: "node list \<Rightarrow> string" where
  "textContent (Text s) = s"
| "textContent (Comment s) = s"
| "textContent (Element sp n a kids) = descendantText kids"
| "descendantText [] = []"
| "descendantText (k # ks) =
     (case k of
        Comment s \<Rightarrow> descendantText ks
      | _ \<Rightarrow> textContent k @ descendantText ks)"

text \<open>The branch of a text node (lines 134 to 156).\<close>

definition processText :: "collab \<Rightarrow> string \<Rightarrow> walk \<Rightarrow> error + (node list \<times> walk)" where
  "processText c text w =
     (if hasSpan (scanDisplay text) \<or> hasSpan (scanInline None text) then
        (case substitute (displayCallback c) (scanDisplay text) (converted w) of
           Inl e \<Rightarrow> Inl e
         | Inr (text1, h1) \<Rightarrow>
             (case substitute (inlineCallback c) (scanInline None text1) h1 of
                Inl e \<Rightarrow> Inl e
              | Inr (text2, h2) \<Rightarrow>
                  Inr (parseFragment c text2, \<lparr>needsUpdate = True, converted = h2\<rparr>)))
      else Inr ([Text text], w))"

text \<open>The branch of an element of class \<^verbatim>\<open>latex-block\<close> (lines 157 to 170).\<close>

definition processBlock :: "collab \<Rightarrow> node \<Rightarrow> walk \<Rightarrow> error + (node list \<times> walk)" where
  "processBlock c node w =
     (case mjConvert c (textContent node) True (converted w) of
        Inl e \<Rightarrow> Inl e
      | Inr (svg, h') \<Rightarrow>
          Inr (parseFragment c (containerOpen @ svg @ containerClose),
               \<lparr>needsUpdate = True, converted = h'\<rparr>))"

text \<open>
  \<^verbatim>\<open>processNode(node)\<close> returns the nodes that stand in the place of \<open>node\<close> afterwards
  (\<^verbatim>\<open>node.replaceWith(...)\<close>, or the node itself). The children are walked over a copy of
  the child list (\<^verbatim>\<open>Array.from\<close>), so the nodes a replacement puts in are not walked.
\<close>

fun processNode :: "collab \<Rightarrow> node \<Rightarrow> walk \<Rightarrow> error + (node list \<times> walk)"
  and processChildren :: "collab \<Rightarrow> node list \<Rightarrow> walk \<Rightarrow> error + (node list \<times> walk)"
where
  "processNode c (Text text) w = processText c text w"
| "processNode c (Comment s) w = Inr ([Comment s], w)"
| "processNode c (Element sp n a kids) w =
     (if className (Element sp n a kids) = Some ''latex-block'' then
        processBlock c (Element sp n a kids) w
      else if n \<noteq> ''SCRIPT'' \<and> n \<noteq> ''CODE'' \<and> n \<noteq> ''PRE'' then
        (case processChildren c kids w of
           Inl e \<Rightarrow> Inl e
         | Inr (kids', w') \<Rightarrow> Inr ([Element sp n a kids'], w'))
      else Inr ([Element sp n a kids], w))"
| "processChildren c [] w = Inr ([], w)"
| "processChildren c (k # ks) w =
     (case processNode c k w of
        Inl e \<Rightarrow> Inl e
      | Inr (r, w1) \<Rightarrow>
          (case processChildren c ks w1 of
             Inl e \<Rightarrow> Inl e
           | Inr (rs, w2) \<Rightarrow> Inr (r @ rs, w2)))"

section \<open>The file system\<close>

type_synonym filesystem = "string \<Rightarrow> fsnode option"

text \<open>\<^verbatim>\<open>fs.statSync(p).isDirectory()\<close>; a path that does not exist throws.\<close>

definition statSync :: "filesystem \<Rightarrow> string \<Rightarrow> error + bool" where
  "statSync d p =
     (case d p of
        None \<Rightarrow> Inl (IOError p)
      | Some Directory \<Rightarrow> Inr True
      | Some _ \<Rightarrow> Inr False)"

definition readFileSync :: "filesystem \<Rightarrow> string \<Rightarrow> error + string" where
  "readFileSync d p =
     (case d p of
        Some (Regular content) \<Rightarrow> Inr content
      | _ \<Rightarrow> Inl (IOError p))"

definition existsSync :: "filesystem \<Rightarrow> string \<Rightarrow> bool" where
  "existsSync d p = (d p \<noteq> None)"

definition writeFileSync :: "filesystem \<Rightarrow> string \<Rightarrow> string \<Rightarrow> filesystem" where
  "writeFileSync d p content = d(p \<mapsto> Regular content)"

definition copyFileSync :: "filesystem \<Rightarrow> string \<Rightarrow> string \<Rightarrow> error + filesystem" where
  "copyFileSync d src dest =
     (case readFileSync d src of
        Inl e \<Rightarrow> Inl e
      | Inr content \<Rightarrow> Inr (d(dest \<mapsto> Regular content)))"

text \<open>\<^verbatim>\<open>fs.mkdirSync(dir, { recursive: true })\<close>\<close>

definition mkdirSync :: "filesystem \<Rightarrow> string \<Rightarrow> filesystem" where
  "mkdirSync d dir =
     fold (\<lambda>q f. if f q = None then f(q \<mapsto> Directory) else f) (dirChain dir) d"

definition ensureDir :: "filesystem \<Rightarrow> string \<Rightarrow> filesystem" where
  "ensureDir d dir = (if \<not> existsSync d dir then mkdirSync d dir else d)"

section \<open>The pipeline\<close>

definition blogRoot :: string where
  "blogRoot = ''/Users/ntalbs/Blog''"

definition publicDir :: string where
  "publicDir = ''public''"

definition targetDir :: string where
  "targetDir = ''rendered-public''"

text \<open>\<^verbatim>\<open>path.join(blogRoot, targetDir, 'math-cache.json')\<close>\<close>

definition cacheFile :: string where
  "cacheFile = blogRoot @ ''/'' @ targetDir @ ''/math-cache.json''"

definition silent :: bool where
  "silent = True"

record counters =
  directories :: nat
  rendered :: nat
  copied :: nat
  skipped :: nat

datatype message =
    StartProcessing nat
  | RENDER string
  | COPY string
  | SKIP string
  | Completed counters nat

text \<open>
  The state of the module: its variables \<^verbatim>\<open>cache\<close> and \<^verbatim>\<open>stat\<close>, the file system, the
  typesetter's state and what was printed.
\<close>

record state =
  cache :: "string \<Rightarrow> string option"
  stat :: counters
  disk :: filesystem
  mj :: calls
  console :: "message list"

definition getTargetPathFrom :: "string \<Rightarrow> string" where
  "getTargetPathFrom sourcePath = replaceFirst publicDir targetDir sourcePath"

definition md5 :: "collab \<Rightarrow> filesystem \<Rightarrow> string \<Rightarrow> error + string" where
  "md5 c d src =
     (case readFileSync d src of
        Inl e \<Rightarrow> Inl e
      | Inr content \<Rightarrow> Inr (md5hex c content))"

definition isSrcNotChanged :: "collab \<Rightarrow> string \<Rightarrow> state \<Rightarrow> error + (bool \<times> state)" where
  "isSrcNotChanged c src s =
     (case md5 c (disk s) src of
        Inl e \<Rightarrow> Inl e
      | Inr newMd5 \<Rightarrow>
          (let same = (cache s src = Some newMd5)
           in Inr (same, if \<not> same then s\<lparr>cache := (cache s)(src \<mapsto> newMd5)\<rparr> else s)))"

text \<open>\<^verbatim>\<open>styleTag.innerHTML = css\<close> on a style element: its text, as one text node.\<close>

definition styleTag :: "string \<Rightarrow> node" where
  "styleTag css =
     Element Html ''STYLE'' [(''id'', ''MJX-SVG-styles'')] (if css = [] then [] else [Text css])"

text \<open>
  A throw leaves the state of its moment as the left result; of it the disk and the
  console outlive the process. (The typesetter's state after a throw of its own is not
  known, and the field keeps the state before the file.)
\<close>

definition processHtml :: "collab \<Rightarrow> string \<Rightarrow> string \<Rightarrow> state \<Rightarrow> (error \<times> state) + state" where
  "processHtml c sourcePath targetPath s =
     (case readFileSync (disk s) sourcePath of
        Inl e \<Rightarrow> Inl (e, s)
      | Inr html \<Rightarrow>
          (let document = parseDocument c html
           in case body document of
                [] \<Rightarrow> Inl (TypeError, s)
              | b # rest \<Rightarrow>
                  (case processNode c b \<lparr>needsUpdate = False, converted = mj s\<rparr> of
                     Inl e \<Rightarrow> Inl (e, s)
                   | Inr (ns, w) \<Rightarrow>
                       if needsUpdate w then
                         (let document' = document
                                \<lparr>body := ns @ rest,
                                 head := head document @ [styleTag (styleSheet c (converted w))]\<rparr>
                          in Inr (s\<lparr>disk := writeFileSync (disk s) targetPath (serialize c document'),
                                    stat := (stat s)\<lparr>rendered := rendered (stat s) + 1\<rparr>,
                                    mj := converted w,
                                    console := console s @ [RENDER sourcePath]\<rparr>))
                       else
                         (case copyFileSync (disk s) sourcePath targetPath of
                            Inl e \<Rightarrow> Inl (e, s\<lparr>mj := converted w\<rparr>)
                          | Inr d \<Rightarrow>
                              Inr (s\<lparr>disk := d,
                                      stat := (stat s)\<lparr>copied := copied (stat s) + 1\<rparr>,
                                      mj := converted w,
                                      console := console s @ (if \<not> silent then [COPY sourcePath] else [])\<rparr>)))))"

definition process :: "collab \<Rightarrow> string \<Rightarrow> state \<Rightarrow> (error \<times> state) + state" where
  "process c sourcePath s =
     (let targetPath = getTargetPathFrom sourcePath
      in case statSync (disk s) sourcePath of
           Inl e \<Rightarrow> Inl (e, s)
         | Inr isDirectory \<Rightarrow>
             if isDirectory then
               Inr (s\<lparr>disk := ensureDir (disk s) targetPath,
                       stat := (stat s)\<lparr>directories := directories (stat s) + 1\<rparr>\<rparr>)
             else if endsWith sourcePath ''.md5'' then Inr s
             else
               (case isSrcNotChanged c sourcePath s of
                  Inl e \<Rightarrow> Inl (e, s)
                | Inr (same, s1) \<Rightarrow>
                    if same then
                      Inr (s1\<lparr>stat := (stat s1)\<lparr>skipped := skipped (stat s1) + 1\<rparr>,
                               console := console s1 @ (if \<not> silent then [SKIP targetPath] else [])\<rparr>)
                    else
                      (let s2 = s1\<lparr>disk := ensureDir (disk s1) (dirname targetPath)\<rparr>
                       in if endsWith sourcePath ''.html'' then processHtml c sourcePath targetPath s2
                          else
                            (let s3 = s2\<lparr>stat := (stat s2)\<lparr>copied := copied (stat s2) + 1\<rparr>,
                                         console := console s2 @ (if \<not> silent then [COPY sourcePath] else [])\<rparr>
                             in case copyFileSync (disk s3) sourcePath targetPath of
                                  Inl e \<Rightarrow> Inl (e, s3)
                                | Inr d \<Rightarrow> Inr (s3\<lparr>disk := d\<rparr>)))))"

text \<open>\<^verbatim>\<open>files.forEach(f => process(f))\<close>: a throw ends the loop.\<close>

fun forEach :: "collab \<Rightarrow> string list \<Rightarrow> state \<Rightarrow> (error \<times> state) + state" where
  "forEach c [] s = Inr s"
| "forEach c (f # files) s =
     (case process c f s of
        Inl e \<Rightarrow> Inl e
      | Inr s' \<Rightarrow> forEach c files s')"

text \<open>The body of the module, run on a disk by a fresh process.\<close>

definition loadCache :: "collab \<Rightarrow> filesystem \<Rightarrow> error + (string \<Rightarrow> string option)" where
  "loadCache c d =
     (if existsSync d cacheFile then
        (case readFileSync d cacheFile of
           Inl e \<Rightarrow> Inl e
         | Inr content \<Rightarrow> jsonParse c content)
      else Inr Map.empty)"

definition main :: "collab \<Rightarrow> filesystem \<Rightarrow> (error \<times> state) + state" where
  "main c d =
     (let files = globSync c (blogRoot @ ''/'' @ publicDir @ ''/**/*'') d;
          s0 = \<lparr>cache = Map.empty,
                stat = \<lparr>directories = 0, rendered = 0, copied = 0, skipped = 0\<rparr>,
                disk = d, mj = [], console = [StartProcessing (length files)]\<rparr>
      in case loadCache c d of
           Inl e \<Rightarrow> Inl (e, s0)
         | Inr loaded \<Rightarrow>
             (case forEach c files (s0\<lparr>cache := loaded\<rparr>) of
                Inl e \<Rightarrow> Inl e
              | Inr s1 \<Rightarrow>
                  (let s2 = s1\<lparr>disk := writeFileSync (disk s1) cacheFile (jsonStringify c (cache s1))\<rparr>;
                       total = directories (stat s2) + rendered (stat s2) + copied (stat s2)
                               + skipped (stat s2)
                   in Inr (s2\<lparr>console := console s2 @ [Completed (stat s2) total]\<rparr>))))"

section \<open>Notions for the statements\<close>

text \<open>The nodes of a tree, and of a list of trees: each node with all below it.\<close>

fun subnodes :: "node \<Rightarrow> node list" and subnodesL :: "node list \<Rightarrow> node list" where
  "subnodes (Text s) = [Text s]"
| "subnodes (Comment s) = [Comment s]"
| "subnodes (Element sp n a kids) = Element sp n a kids # subnodesL kids"
| "subnodesL [] = []"
| "subnodesL (k # ks) = subnodes k @ subnodesL ks"

text \<open>
  \<open>unmarkedBelow root x\<close>: \<open>x\<close> is \<open>root\<close>, or lies below it under elements of which none,
  from \<open>root\<close> down to the parent of \<open>x\<close>, has the class \<^verbatim>\<open>latex-block\<close>.
\<close>

inductive unmarkedBelow :: "node \<Rightarrow> node \<Rightarrow> bool" where
  self: "unmarkedBelow root root"
| child: "unmarkedBelow root (Element sp n a kids) \<Longrightarrow>
          className (Element sp n a kids) \<noteq> Some ''latex-block'' \<Longrightarrow>
          k \<in> set kids \<Longrightarrow> unmarkedBelow root k"

fun nodeName :: "node \<Rightarrow> string" where
  "nodeName (Text s) = ''#text''"
| "nodeName (Comment s) = ''#comment''"
| "nodeName (Element sp n a kids) = n"

fun childNodes :: "node \<Rightarrow> node list" where
  "childNodes (Element sp n a kids) = kids"
| "childNodes _ = []"

text \<open>
  \<open>walked root x\<close>: the walk from \<open>root\<close> comes to \<open>x\<close>, that is, \<open>processNode\<close> is called on
  it: \<open>x\<close> is \<open>root\<close>, or a child of a node the walk comes to and descends into (one whose
  \<^verbatim>\<open>className\<close> is not \<^verbatim>\<open>latex-block\<close> and whose name is none of \<^verbatim>\<open>SCRIPT\<close>, \<^verbatim>\<open>CODE\<close>, \<^verbatim>\<open>PRE\<close>).
\<close>

inductive walked :: "node \<Rightarrow> node \<Rightarrow> bool" where
  start: "walked root root"
| down: "walked root x \<Longrightarrow>
         className x \<noteq> Some ''latex-block'' \<Longrightarrow>
         nodeName x \<noteq> ''SCRIPT'' \<Longrightarrow> nodeName x \<noteq> ''CODE'' \<Longrightarrow> nodeName x \<noteq> ''PRE'' \<Longrightarrow>
         k \<in> set (childNodes x) \<Longrightarrow> walked root k"

text \<open>
  The nodes a walk from a node leaves alone for standing in an opaque container: the
  \<^verbatim>\<open>SCRIPT\<close>, \<^verbatim>\<open>CODE\<close> and \<^verbatim>\<open>PRE\<close> elements without the class that the walk comes to, each
  with all the nodes below it.
\<close>

fun protected :: "node \<Rightarrow> node list" and protectedL :: "node list \<Rightarrow> node list" where
  "protected (Text s) = []"
| "protected (Comment s) = []"
| "protected (Element sp n a kids) =
     (if className (Element sp n a kids) = Some ''latex-block'' then []
      else if n \<noteq> ''SCRIPT'' \<and> n \<noteq> ''CODE'' \<and> n \<noteq> ''PRE'' then protectedL kids
      else subnodes (Element sp n a kids))"
| "protectedL [] = []"
| "protectedL (k # ks) = protected k @ protectedL ks"


subsection \<open>Sample collaborators\<close>

text \<open>
  Collaborators small enough to compute with, for the concrete runs below: the hash is
  the content itself, the typesetter brackets the TeX string, a fragment is parsed to one
  text node, and a document to a body holding its text.
\<close>

definition demoCollab :: collab where
  "demoCollab =
     \<lparr>md5hex = (\<lambda>content. content),
      convert = (\<lambda>h texStr display.
         Inr (if display then ''<D>'' @ texStr @ ''</D>'' else ''<I>'' @ texStr @ ''</I>'')),
      styleSheet = (\<lambda>h. ''css''),
      parseFragment = (\<lambda>markup. [Text markup]),
      parseDocument = (\<lambda>html. \<lparr>prolog = [], head = [], body = [Element Html ''BODY'' [] [Text html]]\<rparr>),
      serialize = (\<lambda>d. descendantText (head d) @ descendantText (body d)),
      globSync = (\<lambda>pattern d. []),
      jsonParse = (\<lambda>content. Inr Map.empty),
      jsonStringify = (\<lambda>m. [])\<rparr>"

text \<open>The same, with a fixed answer of \<^verbatim>\<open>glob.sync\<close>.\<close>

definition listing :: "string list \<Rightarrow> collab" where
  "listing files = demoCollab\<lparr>globSync := (\<lambda>pattern d. files)\<rparr>"

definition emptyCounters :: counters where
  "emptyCounters = \<lparr>directories = 0, rendered = 0, copied = 0, skipped = 0\<rparr>"

section \<open>Facts about the scans\<close>

lemma sourceOf_append: "sourceOf (ps @ qs) = sourceOf ps @ sourceOf qs"
  by (induction ps rule: sourceOf.induct) auto

lemma matchInline_Some:
  "matchInline prev t = Some (c, r) \<longleftrightarrow>
     (prev \<noteq> Some backslash \<and> c \<noteq> [] \<and> dollar \<notin> set c \<and> t = dollar # c @ dollar # r)"
proof (cases t)
  case Nil
  then show ?thesis by simp
next
  case (Cons x xs)
  show ?thesis
  proof
    assume m: "matchInline prev t = Some (c, r)"
    with Cons have x: "x = dollar" and p: "prev \<noteq> Some backslash"
      and c: "c = takeWhile (\<lambda>ch. ch \<noteq> dollar) xs" and ne: "c \<noteq> []"
      by (auto simp: Let_def split: if_splits list.splits)
    from m Cons obtain y where d: "dropWhile (\<lambda>ch. ch \<noteq> dollar) xs = y # r"
      by (auto simp: Let_def split: if_splits list.splits)
    then have ey: "xs = takeWhile (\<lambda>ch. ch \<noteq> dollar) xs @ y # r \<and> \<not> y \<noteq> dollar"
      by (rule iffD1 [OF dropWhile_eq_Cons_conv])
    then have e: "xs = takeWhile (\<lambda>ch. ch \<noteq> dollar) xs @ y # r" and y: "y = dollar"
      by blast+
    from e have "xs = c @ y # r" unfolding c .
    moreover have "dollar \<notin> set c"
      unfolding c using set_takeWhileD by fastforce
    ultimately show "prev \<noteq> Some backslash \<and> c \<noteq> [] \<and> dollar \<notin> set c \<and> t = dollar # c @ dollar # r"
      using Cons x y p ne by simp
  next
    assume a: "prev \<noteq> Some backslash \<and> c \<noteq> [] \<and> dollar \<notin> set c \<and> t = dollar # c @ dollar # r"
    then have nd: "\<forall>x\<in>set c. x \<noteq> dollar" by auto
    then have tw: "takeWhile (\<lambda>ch. ch \<noteq> dollar) (c @ dollar # r) = c"
      by (simp add: takeWhile_tail)
    from nd have dw: "dropWhile (\<lambda>ch. ch \<noteq> dollar) (c @ dollar # r) = dollar # r"
      by (simp add: dropWhile_append3)
    from a tw dw show "matchInline prev t = Some (c, r)"
      by (simp add: Let_def)
  qed
qed

lemma lazyBody_Some: "lazyBody s = Some (c, r) \<Longrightarrow> s = c @ dollar # dollar # r"
  by (induction s arbitrary: c rule: lazyBody.induct) (auto split: if_splits option.splits)

lemma sourceOf_scanInline: "sourceOf (scanInline prev t) = t"
proof (induction prev t rule: scanInline.induct)
  case (1 prev)
  then show ?case by simp
next
  case (2 prev x xs)
  show ?case
  proof (cases "matchInline prev (x # xs)")
    case None
    with 2(1) show ?thesis by simp
  next
    case (Some cr)
    obtain c r where cr: "cr = (c, r)" by (cases cr)
    from Some cr have m: "matchInline prev (x # xs) = Some (c, r)" by simp
    then have "x # xs = dollar # c @ dollar # r" by (simp only: matchInline_Some)
    with 2(2)[OF m refl] m show ?thesis by simp
  qed
qed

lemma sourceOf_scanDisplay: "sourceOf (scanDisplay t) = t"
proof (induction t rule: scanDisplay.induct)
  case 1
  then show ?case by simp
next
  case (2 x xs)
  show ?case
  proof (cases "matchDisplay (x # xs)")
    case None
    with 2(1) show ?thesis by simp
  next
    case (Some cr)
    obtain c r where cr: "cr = (c, r)" by (cases cr)
    from Some cr have m: "matchDisplay (x # xs) = Some (c, r)" by simp
    then have "x # xs = dollar # dollar # c @ dollar # dollar # r"
      by (cases xs) (auto split: if_splits dest: lazyBody_Some)
    with 2(2)[OF m refl] m show ?thesis by (simp del: matchDisplay.simps)
  qed
qed

text \<open>
  Where the inline scan finds a match: at a dollar that no backslash precedes, with a
  capture that is not empty and holds no dollar.
\<close>

lemma scanInline_span:
  "scanInline prev t = ps @ Span m texStr # qs \<Longrightarrow>
     m = dollar # texStr @ [dollar] \<and> texStr \<noteq> [] \<and> dollar \<notin> set texStr \<and>
     (if sourceOf ps = [] then prev \<noteq> Some backslash else last (sourceOf ps) \<noteq> backslash)"
proof (induction prev t arbitrary: ps rule: scanInline.induct)
  case (1 prev)
  then show ?case by simp
next
  case (2 prev x xs)
  show ?case
  proof (cases "matchInline prev (x # xs)")
    case None
    with 2(3) obtain ps' where ps: "ps = Plain x # ps'"
      and rest: "scanInline (Some x) xs = ps' @ Span m texStr # qs"
      by (cases ps) (auto simp del: matchInline.simps)
    from 2(1)[OF None rest] show ?thesis
      by (auto simp: ps split: if_splits)
  next
    case (Some cr)
    obtain c r where cr: "cr = (c, r)" by (cases cr)
    from Some cr have mt: "matchInline prev (x # xs) = Some (c, r)" by simp
    show ?thesis
    proof (cases ps)
      case Nil
      with 2(3) mt have "m = dollar # c @ [dollar]" and "texStr = c"
        by (auto simp del: matchInline.simps)
      with mt Nil show ?thesis by (simp add: matchInline_Some del: matchInline.simps)
    next
      case (Cons p ps')
      with 2(3) mt have p: "p = Span (dollar # c @ [dollar]) c"
        and rest: "scanInline (Some dollar) r = ps' @ Span m texStr # qs"
        by (simp_all del: matchInline.simps)
      from 2(2)[OF mt refl rest] show ?thesis
        by (auto simp: Cons p split: if_splits)
    qed
  qed
qed

lemma scanInline_plain: "dollar \<notin> set t \<Longrightarrow> scanInline prev t = map Plain t"
  by (induction t arbitrary: prev) auto

lemma scanInline_plain_prefix:
  "dollar \<notin> set t \<Longrightarrow>
   scanInline prev (t @ rest) = map Plain t @ scanInline (if t = [] then prev else Some (last t)) rest"
  by (induction t arbitrary: prev) auto

lemma lazyBody_plain: "dollar \<notin> set b \<Longrightarrow> lazyBody (b @ dollar # dollar # post) = Some (b, post)"
proof (induction b)
  case Nil
  then show ?case by simp
next
  case (Cons x xs)
  then show ?case by (cases xs) auto
qed

lemma substitute_plain:
  "substitute f (map Plain t @ ps) h =
     (case substitute f ps h of Inl e \<Rightarrow> Inl e | Inr (s, h') \<Rightarrow> Inr (t @ s, h'))"
  by (induction t) (auto split: sum.splits)

lemma substitute_plain_only: "substitute f (map Plain t) h = Inr (t, h)"
  by (induction t) auto

lemma substitute_all_plain: "\<not> hasSpan ps \<Longrightarrow> substitute f ps h = Inr (sourceOf ps, h)"
  by (induction ps rule: hasSpan.induct) auto

lemma captures_no_span: "\<not> hasSpan ps \<Longrightarrow> captures ps = []"
  by (induction ps rule: hasSpan.induct) auto

text \<open>A replacement converts the captures of its scan, in their order.\<close>

lemma substitute_calls:
  assumes "\<And>t h out h'. f t h = Inr (out, h') \<Longrightarrow> h' = h @ [(t, d)]"
  shows "substitute f ps h = Inr (s, h') \<Longrightarrow> h' = h @ map (\<lambda>t. (t, d)) (captures ps)"
proof (induction ps arbitrary: h s h' rule: captures.induct)
  case 1
  then show ?case by simp
next
  case (2 x ps)
  then show ?case by (auto split: sum.splits)
next
  case (3 m texStr ps)
  from "3.prems" obtain out h1 s1 where a: "f texStr h = Inr (out, h1)"
    and b: "substitute f ps h1 = Inr (s1, h')"
    by (auto split: sum.splits)
  from assms[OF a] "3.IH"[OF b] show ?case by simp
qed

lemma displayCallback_calls: "displayCallback c t h = Inr (out, h') \<Longrightarrow> h' = h @ [(t, True)]"
  by (auto simp: displayCallback_def mjConvert_def split: sum.splits)

lemma inlineCallback_calls: "inlineCallback c t h = Inr (out, h') \<Longrightarrow> h' = h @ [(t, False)]"
  by (auto simp: inlineCallback_def mjConvert_def split: sum.splits)

lemma container_no_dollar:
  "dollar \<notin> set svg \<Longrightarrow> dollar \<notin> set (containerOpen @ svg @ containerClose)"
  by (simp add: containerOpen_def containerClose_def)

lemma processText_steps:
  assumes "hasSpan (scanDisplay text) \<or> hasSpan (scanInline None text)"
    and "substitute (displayCallback c) (scanDisplay text) (converted w) = Inr (text1, h1)"
    and "substitute (inlineCallback c) (scanInline None text1) h1 = Inr (text2, h2)"
  shows "processText c text w = Inr (parseFragment c text2, \<lparr>needsUpdate = True, converted = h2\<rparr>)"
  using assms by (simp add: processText_def)

section \<open>Display before inline\<close>

text \<open>
  C4. In a text node the display matches are converted first and the inline pattern is
  run on the text that results: the conversions of a text node are the captures of the
  display scan of its text, in display mode, and after them the captures of the inline
  scan of the replaced text, in inline mode. A text \<^verbatim>\<open>$$...$$\<close> whose inside holds no dollar
  is one display conversion of the inside and no inline one, and \<^verbatim>\<open>$$a+b$$ and $c$\<close> is
  one display conversion of \<^verbatim>\<open>a+b\<close> and one inline conversion of \<^verbatim>\<open>c\<close>. The inline
  pattern runs over the markup the display conversions returned, so the last two hold
  for a typesetter whose display markup holds no dollar.
\<close>

theorem display_resolved_before_inline:
  "(processText c text w = Inr (ns, w') \<longrightarrow>
      (\<exists>text1 h1 text2.
          substitute (displayCallback c) (scanDisplay text) (converted w) = Inr (text1, h1)
        \<and> substitute (inlineCallback c) (scanInline None text1) h1 = Inr (text2, converted w')
        \<and> h1 = converted w @ map (\<lambda>t. (t, True)) (captures (scanDisplay text))
        \<and> converted w' = h1 @ map (\<lambda>t. (t, False)) (captures (scanInline None text1))))
   \<and> (dollar \<notin> set expr \<and> convert c (converted w) expr True = Inr svg \<and> dollar \<notin> set svg \<longrightarrow>
        processText c (''$$'' @ expr @ ''$$'') w =
          Inr (parseFragment c (containerOpen @ svg @ containerClose),
               \<lparr>needsUpdate = True, converted = converted w @ [(expr, True)]\<rparr>))
   \<and> (convert c (converted w) ''a+b'' True = Inr svg1 \<and> dollar \<notin> set svg1
        \<and> convert c (converted w @ [(''a+b'', True)]) ''c'' False = Inr svg2 \<longrightarrow>
        processText c ''$$a+b$$ and $c$'' w =
          Inr (parseFragment c ((containerOpen @ svg1 @ containerClose) @ '' and '' @ svg2),
               \<lparr>needsUpdate = True,
                converted = converted w @ [(''a+b'', True), (''c'', False)]\<rparr>))"
proof (intro conjI impI)
  assume res: "processText c text w = Inr (ns, w')"
  show "\<exists>text1 h1 text2.
          substitute (displayCallback c) (scanDisplay text) (converted w) = Inr (text1, h1)
        \<and> substitute (inlineCallback c) (scanInline None text1) h1 = Inr (text2, converted w')
        \<and> h1 = converted w @ map (\<lambda>t. (t, True)) (captures (scanDisplay text))
        \<and> converted w' = h1 @ map (\<lambda>t. (t, False)) (captures (scanInline None text1))"
  proof (cases "hasSpan (scanDisplay text) \<or> hasSpan (scanInline None text)")
    case True
    with res obtain text1 h1 text2 h2 where
      d: "substitute (displayCallback c) (scanDisplay text) (converted w) = Inr (text1, h1)"
      and i: "substitute (inlineCallback c) (scanInline None text1) h1 = Inr (text2, h2)"
      and w': "w' = \<lparr>needsUpdate = True, converted = h2\<rparr>"
      by (auto simp: processText_def split: sum.splits)
    from substitute_calls[of "displayCallback c" True, OF displayCallback_calls d]
    have h1: "h1 = converted w @ map (\<lambda>t. (t, True)) (captures (scanDisplay text))" .
    from substitute_calls[of "inlineCallback c" False, OF inlineCallback_calls i]
    have h2: "h2 = h1 @ map (\<lambda>t. (t, False)) (captures (scanInline None text1))" .
    from d i h1 h2 w' show ?thesis by simp
  next
    case False
    with res have w': "w' = w" by (simp add: processText_def)
    from False have nd: "\<not> hasSpan (scanDisplay text)" and ni: "\<not> hasSpan (scanInline None text)"
      by simp_all
    have d: "substitute (displayCallback c) (scanDisplay text) (converted w) = Inr (text, converted w)"
      using substitute_all_plain[OF nd] by (simp add: sourceOf_scanDisplay)
    have i: "substitute (inlineCallback c) (scanInline None text) (converted w) = Inr (text, converted w)"
      using substitute_all_plain[OF ni] by (simp add: sourceOf_scanInline)
    from d i show ?thesis
      by (simp add: w' captures_no_span[OF nd] captures_no_span[OF ni])
  qed
next
  assume a: "dollar \<notin> set expr \<and> convert c (converted w) expr True = Inr svg \<and> dollar \<notin> set svg"
  show "processText c (''$$'' @ expr @ ''$$'') w =
          Inr (parseFragment c (containerOpen @ svg @ containerClose),
               \<lparr>needsUpdate = True, converted = converted w @ [(expr, True)]\<rparr>)"
  proof (rule processText_steps)
    have sd: "scanDisplay (''$$'' @ expr @ ''$$'') = [Span (''$$'' @ expr @ ''$$'') expr]"
      using lazyBody_plain[of expr "[]"] a by simp
    show "hasSpan (scanDisplay (''$$'' @ expr @ ''$$''))
            \<or> hasSpan (scanInline None (''$$'' @ expr @ ''$$''))"
      unfolding sd by simp
    show "substitute (displayCallback c) (scanDisplay (''$$'' @ expr @ ''$$'')) (converted w)
        = Inr (containerOpen @ svg @ containerClose, converted w @ [(expr, True)])"
      unfolding sd using a by (simp add: displayCallback_def mjConvert_def)
    from a have nd: "dollar \<notin> set svg" by simp
    show "substitute (inlineCallback c) (scanInline None (containerOpen @ svg @ containerClose))
            (converted w @ [(expr, True)])
        = Inr (containerOpen @ svg @ containerClose, converted w @ [(expr, True)])"
      unfolding scanInline_plain[OF container_no_dollar[OF nd]]
      by (rule substitute_plain_only)
  qed
next
  assume a: "convert c (converted w) ''a+b'' True = Inr svg1 \<and> dollar \<notin> set svg1
        \<and> convert c (converted w @ [(''a+b'', True)]) ''c'' False = Inr svg2"
  show "processText c ''$$a+b$$ and $c$'' w =
          Inr (parseFragment c ((containerOpen @ svg1 @ containerClose) @ '' and '' @ svg2),
               \<lparr>needsUpdate = True,
                converted = converted w @ [(''a+b'', True), (''c'', False)]\<rparr>)"
  proof (rule processText_steps)
    have sd: "scanDisplay ''$$a+b$$ and $c$'' = Span ''$$a+b$$'' ''a+b'' # map Plain '' and $c$''"
      by simp
    show "hasSpan (scanDisplay ''$$a+b$$ and $c$'') \<or> hasSpan (scanInline None ''$$a+b$$ and $c$'')"
      unfolding sd by simp
    show "substitute (displayCallback c) (scanDisplay ''$$a+b$$ and $c$'') (converted w)
        = Inr ((containerOpen @ svg1 @ containerClose) @ '' and $c$'',
               converted w @ [(''a+b'', True)])"
      unfolding sd using a
      by (simp add: displayCallback_def mjConvert_def substitute_plain_only)
    from a have nd: "dollar \<notin> set svg1" by simp
    have si: "scanInline None ((containerOpen @ svg1 @ containerClose) @ '' and $c$'')
         = map Plain (containerOpen @ svg1 @ containerClose)
           @ map Plain '' and '' @ [Span ''$c$'' ''c'']"
      unfolding scanInline_plain_prefix[OF container_no_dollar[OF nd]] by simp
    show "substitute (inlineCallback c)
            (scanInline None ((containerOpen @ svg1 @ containerClose) @ '' and $c$''))
            (converted w @ [(''a+b'', True)])
        = Inr ((containerOpen @ svg1 @ containerClose) @ '' and '' @ svg2,
               converted w @ [(''a+b'', True), (''c'', False)])"
      unfolding si substitute_plain using a by (simp add: inlineCallback_def mjConvert_def)
  qed
qed

theorem display_resolved_before_inline_witness:
  "processText demoCollab ''$$a+b$$ and $c$'' \<lparr>needsUpdate = False, converted = []\<rparr>
     = Inr ([Text ((containerOpen @ ''<D>a+b</D>'' @ containerClose) @ '' and '' @ ''<I>c</I>'')],
            \<lparr>needsUpdate = True, converted = [(''a+b'', True), (''c'', False)]\<rparr>)
   \<and> processText demoCollab (''$$'' @ ''a+b'' @ ''$$'') \<lparr>needsUpdate = False, converted = []\<rparr>
     = Inr ([Text (containerOpen @ ''<D>a+b</D>'' @ containerClose)],
            \<lparr>needsUpdate = True, converted = [(''a+b'', True)]\<rparr>)
   \<and> (\<exists>text1 h1 text2.
          substitute (displayCallback demoCollab) (scanDisplay ''$$a+b$$ and $c$'') [] = Inr (text1, h1)
        \<and> substitute (inlineCallback demoCollab) (scanInline None text1) h1
            = Inr (text2, [(''a+b'', True), (''c'', False)])
        \<and> h1 = map (\<lambda>t. (t, True)) (captures (scanDisplay ''$$a+b$$ and $c$''))
        \<and> [(''a+b'', True), (''c'', False)] = h1 @ map (\<lambda>t. (t, False)) (captures (scanInline None text1)))"
proof -
  have conv1: "convert demoCollab [] ''a+b'' True = Inr ''<D>a+b</D>''"
    and conv2: "convert demoCollab ([] @ [(''a+b'', True)]) ''c'' False = Inr ''<I>c</I>''"
    by (simp_all add: demoCollab_def)
  note inst = display_resolved_before_inline
    [of demoCollab "''$$a+b$$ and $c$''" "\<lparr>needsUpdate = False, converted = []\<rparr>"
        "[Text ((containerOpen @ ''<D>a+b</D>'' @ containerClose) @ '' and '' @ ''<I>c</I>'')]"
        "\<lparr>needsUpdate = True, converted = [(''a+b'', True), (''c'', False)]\<rparr>"
        "''a+b''" "''<D>a+b</D>''" "''<D>a+b</D>''" "''<I>c</I>''"]
  from inst conv1 conv2 have ex: "processText demoCollab ''$$a+b$$ and $c$'' \<lparr>needsUpdate = False, converted = []\<rparr>
     = Inr ([Text ((containerOpen @ ''<D>a+b</D>'' @ containerClose) @ '' and '' @ ''<I>c</I>'')],
            \<lparr>needsUpdate = True, converted = [(''a+b'', True), (''c'', False)]\<rparr>)"
    by (simp add: demoCollab_def)
  from inst conv1 have alone: "processText demoCollab (''$$'' @ ''a+b'' @ ''$$'') \<lparr>needsUpdate = False, converted = []\<rparr>
     = Inr ([Text (containerOpen @ ''<D>a+b</D>'' @ containerClose)],
            \<lparr>needsUpdate = True, converted = [(''a+b'', True)]\<rparr>)"
    by (simp add: demoCollab_def)
  from inst ex have "\<exists>text1 h1 text2.
          substitute (displayCallback demoCollab) (scanDisplay ''$$a+b$$ and $c$'') [] = Inr (text1, h1)
        \<and> substitute (inlineCallback demoCollab) (scanInline None text1) h1
            = Inr (text2, [(''a+b'', True), (''c'', False)])
        \<and> h1 = map (\<lambda>t. (t, True)) (captures (scanDisplay ''$$a+b$$ and $c$''))
        \<and> [(''a+b'', True), (''c'', False)] = h1 @ map (\<lambda>t. (t, False)) (captures (scanInline None text1))"
    by simp
  with ex alone show ?thesis by blast
qed

section \<open>Escaped dollars\<close>

text \<open>
  C5. In the text the inline pattern is run on, no match starts at a dollar that a
  backslash precedes: with the escaped dollar at offset \<open>Suc (length pre)\<close>, no match of
  the scan starts at that offset. In particular the text \<^verbatim>\<open>price is \$5 and $x$\<close> has one
  conversion, of \<^verbatim>\<open>x\<close> in inline mode, and keeps \<^verbatim>\<open>price is \$5 and \<close> as it is.
\<close>

theorem inline_never_starts_at_escaped_dollar:
  "(scanInline None (pre @ backslash # dollar # post) = ps @ Span m texStr # qs
      \<longrightarrow> length (sourceOf ps) \<noteq> Suc (length pre))
   \<and> processText c (''price is '' @ [backslash] @ ''$5 and $x$'') w =
       (case convert c (converted w) ''x'' False of
          Inl e \<Rightarrow> Inl e
        | Inr svg \<Rightarrow>
            Inr (parseFragment c (''price is '' @ [backslash] @ ''$5 and '' @ svg),
                 \<lparr>needsUpdate = True, converted = converted w @ [(''x'', False)]\<rparr>))"
proof (intro conjI impI)
  assume scan: "scanInline None (pre @ backslash # dollar # post) = ps @ Span m texStr # qs"
  show "length (sourceOf ps) \<noteq> Suc (length pre)"
  proof
    assume len: "length (sourceOf ps) = Suc (length pre)"
    have "sourceOf (scanInline None (pre @ backslash # dollar # post))
            = pre @ backslash # dollar # post"
      by (rule sourceOf_scanInline)
    then have eq: "sourceOf ps @ (m @ sourceOf qs) = (pre @ [backslash]) @ (dollar # post)"
      unfolding scan by (simp add: sourceOf_append)
    from len have "length (sourceOf ps) = length (pre @ [backslash])" by simp
    with eq have src: "sourceOf ps = pre @ [backslash]"
      by (metis append_eq_append_conv)
    from scanInline_span[OF scan] src show False by simp
  qed
next
  show "processText c (''price is '' @ [backslash] @ ''$5 and $x$'') w =
       (case convert c (converted w) ''x'' False of
          Inl e \<Rightarrow> Inl e
        | Inr svg \<Rightarrow>
            Inr (parseFragment c (''price is '' @ [backslash] @ ''$5 and '' @ svg),
                 \<lparr>needsUpdate = True, converted = converted w @ [(''x'', False)]\<rparr>))"
    by (simp add: processText_def inlineCallback_def mjConvert_def split: sum.splits)
qed

theorem inline_never_starts_at_escaped_dollar_witness:
  "scanInline None (''price is '' @ backslash # dollar # ''5 and $x$'')
     = map Plain (''price is '' @ [backslash] @ ''$5 and '') @ Span ''$x$'' ''x'' # []
   \<and> length (sourceOf (map Plain (''price is '' @ [backslash] @ ''$5 and ''))) \<noteq> Suc (length ''price is '')
   \<and> processText demoCollab (''price is '' @ [backslash] @ ''$5 and $x$'')
        \<lparr>needsUpdate = False, converted = []\<rparr>
       = Inr ([Text (''price is '' @ [backslash] @ ''$5 and <I>x</I>'')],
              \<lparr>needsUpdate = True, converted = [(''x'', False)]\<rparr>)"
  using inline_never_starts_at_escaped_dollar
    [of "''price is ''" "''5 and $x$''" "map Plain (''price is '' @ [backslash] @ ''$5 and '')"
        "''$x$''" "''x''" "[]" demoCollab "\<lparr>needsUpdate = False, converted = []\<rparr>"]
  by (simp add: demoCollab_def)

section \<open>Opaque containers\<close>

lemma subnodesL_append: "subnodesL (xs @ ys) = subnodesL xs @ subnodesL ys"
  by (induction xs) auto

lemma subnodes_self: "x \<in> set (subnodes x)"
  by (cases x) auto

lemma subnodesL_mem: "k \<in> set ks \<Longrightarrow> set (subnodes k) \<subseteq> set (subnodesL ks)"
  by (induction ks) auto

lemma protectedL_mem: "k \<in> set ks \<Longrightarrow> set (protected k) \<subseteq> set (protectedL ks)"
  by (induction ks) auto

lemma subnodes_trans:
  "y \<in> set (subnodes r) \<Longrightarrow> set (subnodes y) \<subseteq> set (subnodes r)"
  "y \<in> set (subnodesL rs) \<Longrightarrow> set (subnodes y) \<subseteq> set (subnodesL rs)"
  by (induction r and rs rule: subnodes_subnodesL.induct) auto

lemma protected_closed:
  "y \<in> set (protected r) \<Longrightarrow> set (subnodes y) \<subseteq> set (protected r)"
  "y \<in> set (protectedL rs) \<Longrightarrow> set (subnodes y) \<subseteq> set (protectedL rs)"
proof (induction r and rs rule: protected_protectedL.induct)
  case (3 sp n a kids)
  show ?case
  proof (cases "className (Element sp n a kids) = Some ''latex-block''")
    case True
    with 3(2) show ?thesis by simp
  next
    case False
    show ?thesis
    proof (cases "n \<noteq> ''SCRIPT'' \<and> n \<noteq> ''CODE'' \<and> n \<noteq> ''PRE''")
      case True
      with False 3 show ?thesis by simp
    next
      case nope: False
      with False have p: "protected (Element sp n a kids) = subnodes (Element sp n a kids)" by auto
      from 3(2) have "y \<in> set (subnodes (Element sp n a kids))" unfolding p .
      from subnodes_trans(1)[OF this] show ?thesis unfolding p .
    qed
  qed
qed auto

lemma processNode_protected:
  "(\<forall>ns w'. processNode c node w = Inr (ns, w') \<longrightarrow> set (protected node) \<subseteq> set (subnodesL ns))"
  "(\<forall>ns w'. processChildren c nodes w = Inr (ns, w') \<longrightarrow> set (protectedL nodes) \<subseteq> set (subnodesL ns))"
proof (induction c node w and c nodes w rule: processNode_processChildren.induct)
  case (1 c t w)
  then show ?case by simp
next
  case (2 c s w)
  then show ?case by simp
next
  case (3 c sp n a kids w)
  show ?case
  proof (intro allI impI)
    fix ns w'
    assume r: "processNode c (Element sp n a kids) w = Inr (ns, w')"
    show "set (protected (Element sp n a kids)) \<subseteq> set (subnodesL ns)"
    proof (cases "className (Element sp n a kids) = Some ''latex-block''")
      case True
      then show ?thesis by simp
    next
      case False
      show ?thesis
      proof (cases "n \<noteq> ''SCRIPT'' \<and> n \<noteq> ''CODE'' \<and> n \<noteq> ''PRE''")
        case True
        with r False obtain kids' where k: "processChildren c kids w = Inr (kids', w')"
          and ns: "ns = [Element sp n a kids']"
          by (auto split: sum.splits)
        from 3[OF False True] k have "set (protectedL kids) \<subseteq> set (subnodesL kids')" by blast
        with False True ns show ?thesis by auto
      next
        case nope: False
        with r False have "ns = [Element sp n a kids]" by auto
        with False nope show ?thesis by auto
      qed
    qed
  qed
next
  case (4 c w)
  then show ?case by simp
next
  case (5 c k ks w)
  show ?case
  proof (intro allI impI)
    fix ns w'
    assume r: "processChildren c (k # ks) w = Inr (ns, w')"
    then obtain r1 w1 rs where a: "processNode c k w = Inr (r1, w1)"
      and b: "processChildren c ks w1 = Inr (rs, w')" and ns: "ns = r1 @ rs"
      by (auto split: sum.splits)
    from 5(1) a have "set (protected k) \<subseteq> set (subnodesL r1)" by blast
    moreover from 5(2)[OF a refl] b have "set (protectedL ks) \<subseteq> set (subnodesL rs)" by blast
    ultimately show "set (protectedL (k # ks)) \<subseteq> set (subnodesL ns)"
      by (auto simp: ns subnodesL_append)
  qed
qed

lemma unmarkedBelow_protected:
  assumes "unmarkedBelow root x"
  shows "x \<in> set (protected root) \<or> set (protected x) \<subseteq> set (protected root)"
  using assms
proof (induction rule: unmarkedBelow.induct)
  case (self root)
  then show ?case by simp
next
  case (child root sp n a kids k)
  from child.IH show ?case
  proof
    assume "Element sp n a kids \<in> set (protected root)"
    from protected_closed(1)[OF this] have "set (subnodesL kids) \<subseteq> set (protected root)" by simp
    with subnodesL_mem[OF child.hyps(3)] subnodes_self[of k] show ?thesis by blast
  next
    assume sub: "set (protected (Element sp n a kids)) \<subseteq> set (protected root)"
    show ?thesis
    proof (cases "n \<noteq> ''SCRIPT'' \<and> n \<noteq> ''CODE'' \<and> n \<noteq> ''PRE''")
      case True
      with child.hyps(2) sub have "set (protectedL kids) \<subseteq> set (protected root)" by simp
      with protectedL_mem[OF child.hyps(3)] show ?thesis by blast
    next
      case False
      with child.hyps(2) sub have "set (subnodesL kids) \<subseteq> set (protected root)" by auto
      with subnodesL_mem[OF child.hyps(3)] subnodes_self[of k] show ?thesis by blast
    qed
  qed
qed

text \<open>
  C6, as the code has it. The class test comes first (C10), so the exclusion holds for
  the \<^verbatim>\<open>SCRIPT\<close>, \<^verbatim>\<open>CODE\<close> and \<^verbatim>\<open>PRE\<close> elements that do not have the class
  \<^verbatim>\<open>latex-block\<close> themselves and lie under no element that has it. On such an element
  \<open>processNode\<close> returns the element as it is and leaves the state of the walk as it
  was (no conversion, the flag untouched); and wherever it stands below the root of a
  walk, the element, with all its subtree, is a node of the tree the walk returns.
\<close>

theorem opaque_unmarked_subtree_kept:
  assumes "unmarkedBelow root (Element sp n a kids)"
    and "n = ''SCRIPT'' \<or> n = ''CODE'' \<or> n = ''PRE''"
    and "className (Element sp n a kids) \<noteq> Some ''latex-block''"
  shows "processNode c (Element sp n a kids) w = Inr ([Element sp n a kids], w)
       \<and> (processNode c root w0 = Inr (ns, w') \<longrightarrow> Element sp n a kids \<in> set (subnodesL ns))"
proof (intro conjI impI)
  from assms(2,3) show "processNode c (Element sp n a kids) w = Inr ([Element sp n a kids], w)"
    by auto
next
  assume r: "processNode c root w0 = Inr (ns, w')"
  from assms(2,3) have p: "protected (Element sp n a kids) = subnodes (Element sp n a kids)" by auto
  from unmarkedBelow_protected[OF assms(1)] have "Element sp n a kids \<in> set (protected root)"
    unfolding p using subnodes_self[of "Element sp n a kids"] by blast
  with processNode_protected(1)[of c root w0] r show "Element sp n a kids \<in> set (subnodesL ns)"
    by blast
qed

theorem opaque_unmarked_subtree_kept_witness:
  "unmarkedBelow
      (Element Html ''DIV'' [] [Element Html ''P'' [] [Element Html ''PRE'' [] [Text ''$x$'']], Text ''$y$''])
      (Element Html ''PRE'' [] [Text ''$x$''])
   \<and> className (Element Html ''PRE'' [] [Text ''$x$'']) \<noteq> Some ''latex-block''
   \<and> processNode demoCollab (Element Html ''PRE'' [] [Text ''$x$''])
        \<lparr>needsUpdate = False, converted = []\<rparr>
       = Inr ([Element Html ''PRE'' [] [Text ''$x$'']], \<lparr>needsUpdate = False, converted = []\<rparr>)
   \<and> processNode demoCollab
        (Element Html ''DIV'' [] [Element Html ''P'' [] [Element Html ''PRE'' [] [Text ''$x$'']], Text ''$y$''])
        \<lparr>needsUpdate = False, converted = []\<rparr>
       = Inr ([Element Html ''DIV'' [] [Element Html ''P'' [] [Element Html ''PRE'' [] [Text ''$x$'']],
                                    Text ''<I>y</I>'']],
              \<lparr>needsUpdate = True, converted = [(''y'', False)]\<rparr>)
   \<and> Element Html ''PRE'' [] [Text ''$x$'']
       \<in> set (subnodesL [Element Html ''DIV'' [] [Element Html ''P'' [] [Element Html ''PRE'' [] [Text ''$x$'']],
                                              Text ''<I>y</I>'']])"
proof -
  have u: "unmarkedBelow
      (Element Html ''DIV'' [] [Element Html ''P'' [] [Element Html ''PRE'' [] [Text ''$x$'']], Text ''$y$''])
      (Element Html ''PRE'' [] [Text ''$x$''])"
    by (rule unmarkedBelow.child [where n = "''P''" and a = "[]"
              and kids = "[Element Html ''PRE'' [] [Text ''$x$'']]"],
        rule unmarkedBelow.child [where n = "''DIV''" and a = "[]"
              and kids = "[Element Html ''P'' [] [Element Html ''PRE'' [] [Text ''$x$'']], Text ''$y$'']"],
        rule unmarkedBelow.self) simp_all
  have cn: "className (Element Html ''PRE'' [] [Text ''$x$'']) \<noteq> Some ''latex-block''"
    by simp
  have run: "processNode demoCollab
        (Element Html ''DIV'' [] [Element Html ''P'' [] [Element Html ''PRE'' [] [Text ''$x$'']], Text ''$y$''])
        \<lparr>needsUpdate = False, converted = []\<rparr>
       = Inr ([Element Html ''DIV'' [] [Element Html ''P'' [] [Element Html ''PRE'' [] [Text ''$x$'']],
                                    Text ''<I>y</I>'']],
              \<lparr>needsUpdate = True, converted = [(''y'', False)]\<rparr>)"
    by (simp add: processText_def displayCallback_def inlineCallback_def mjConvert_def demoCollab_def)
  from opaque_unmarked_subtree_kept
    [OF u _ cn, of demoCollab "\<lparr>needsUpdate = False, converted = []\<rparr>"
       "\<lparr>needsUpdate = False, converted = []\<rparr>"
       "[Element Html ''DIV'' [] [Element Html ''P'' [] [Element Html ''PRE'' [] [Text ''$x$'']],
                             Text ''<I>y</I>'']]"
       "\<lparr>needsUpdate = True, converted = [(''y'', False)]\<rparr>"]
    u cn run
  show ?thesis by simp
qed

text \<open>
  C6 as it is written fails on an element that has the class, and on one below an
  element that has it: the \<^verbatim>\<open>CODE\<close> element of class \<^verbatim>\<open>latex-block\<close> is typeset and is
  gone from the tree, and so is the plain \<^verbatim>\<open>CODE\<close> element inside a marked \<^verbatim>\<open>DIV\<close>.
\<close>

theorem opaque_exclusion_counterexample:
  "processNode demoCollab
      (Element Html ''DIV'' [] [Element Html ''CODE'' [(''class'', ''latex-block'')] [Text ''$x$'']])
      \<lparr>needsUpdate = False, converted = []\<rparr>
     = Inr ([Element Html ''DIV'' [] [Text (containerOpen @ ''<D>$x$</D>'' @ containerClose)]],
            \<lparr>needsUpdate = True, converted = [(''$x$'', True)]\<rparr>)
   \<and> Element Html ''CODE'' [(''class'', ''latex-block'')] [Text ''$x$'']
       \<notin> set (subnodesL [Element Html ''DIV'' [] [Text (containerOpen @ ''<D>$x$</D>'' @ containerClose)]])
   \<and> processNode demoCollab
      (Element Html ''DIV'' [(''class'', ''latex-block'')] [Element Html ''CODE'' [] [Text ''$y$'']])
      \<lparr>needsUpdate = False, converted = []\<rparr>
     = Inr ([Text (containerOpen @ ''<D>$y$</D>'' @ containerClose)],
            \<lparr>needsUpdate = True, converted = [(''$y$'', True)]\<rparr>)
   \<and> Element Html ''CODE'' [] [Text ''$y$'']
       \<notin> set (subnodesL [Text (containerOpen @ ''<D>$y$</D>'' @ containerClose)])"
  by (simp add: processBlock_def mjConvert_def demoCollab_def)

section \<open>The stylesheet\<close>

text \<open>
  The flag \<^verbatim>\<open>needsUpdate\<close> and the conversions: a walk sets the flag exactly when it made a
  conversion.
\<close>

lemma captures_has_span: "hasSpan ps \<Longrightarrow> captures ps \<noteq> []"
  by (induction ps rule: hasSpan.induct) auto

lemma processText_flag:
  assumes "processText c text w = Inr (ns, w')"
  shows "\<exists>ext. converted w' = converted w @ ext \<and> needsUpdate w' = (needsUpdate w \<or> ext \<noteq> [])"
proof (cases "hasSpan (scanDisplay text) \<or> hasSpan (scanInline None text)")
  case True
  with assms obtain text1 h1 text2 h2 where
    d: "substitute (displayCallback c) (scanDisplay text) (converted w) = Inr (text1, h1)"
    and i: "substitute (inlineCallback c) (scanInline None text1) h1 = Inr (text2, h2)"
    and w': "w' = \<lparr>needsUpdate = True, converted = h2\<rparr>"
    by (auto simp: processText_def split: sum.splits)
  from substitute_calls[of "displayCallback c" True, OF displayCallback_calls d]
  have h1: "h1 = converted w @ map (\<lambda>t. (t, True)) (captures (scanDisplay text))" .
  from substitute_calls[of "inlineCallback c" False, OF inlineCallback_calls i]
  have h2: "h2 = h1 @ map (\<lambda>t. (t, False)) (captures (scanInline None text1))" .
  have "captures (scanDisplay text) \<noteq> [] \<or> captures (scanInline None text1) \<noteq> []"
  proof (cases "hasSpan (scanDisplay text)")
    case True
    then show ?thesis by (simp add: captures_has_span)
  next
    case False
    from substitute_all_plain[OF False, of "displayCallback c" "converted w"] d
    have "text1 = text" by (simp add: sourceOf_scanDisplay)
    with False \<open>hasSpan (scanDisplay text) \<or> hasSpan (scanInline None text)\<close>
    show ?thesis by (simp add: captures_has_span)
  qed
  with h1 h2 w' show ?thesis by auto
next
  case False
  with assms have "w' = w" by (simp add: processText_def)
  then show ?thesis by simp
qed

lemma processBlock_flag:
  assumes "processBlock c node w = Inr (ns, w')"
  shows "\<exists>ext. converted w' = converted w @ ext \<and> needsUpdate w' = (needsUpdate w \<or> ext \<noteq> [])"
  using assms by (auto simp: processBlock_def mjConvert_def split: sum.splits)

lemma processNode_flag_both:
  "(\<forall>ns w'. processNode c node w = Inr (ns, w') \<longrightarrow>
      (\<exists>ext. converted w' = converted w @ ext \<and> needsUpdate w' = (needsUpdate w \<or> ext \<noteq> [])))"
    "(\<forall>ns w'. processChildren c nodes w = Inr (ns, w') \<longrightarrow>
      (\<exists>ext. converted w' = converted w @ ext \<and> needsUpdate w' = (needsUpdate w \<or> ext \<noteq> [])))"
proof (induction c node w and c nodes w rule: processNode_processChildren.induct)
  case (1 c t w)
  then show ?case using processText_flag by simp
next
  case (2 c s w)
  then show ?case by simp
next
  case (3 c sp n a kids w)
  show ?case
  proof (intro allI impI)
    fix ns w'
    assume r: "processNode c (Element sp n a kids) w = Inr (ns, w')"
    show "\<exists>ext. converted w' = converted w @ ext \<and> needsUpdate w' = (needsUpdate w \<or> ext \<noteq> [])"
    proof (cases "className (Element sp n a kids) = Some ''latex-block''")
      case True
      with r show ?thesis using processBlock_flag[of c "Element sp n a kids" w ns w'] by simp
    next
      case False
      show ?thesis
      proof (cases "n \<noteq> ''SCRIPT'' \<and> n \<noteq> ''CODE'' \<and> n \<noteq> ''PRE''")
        case True
        with r False obtain kids' where "processChildren c kids w = Inr (kids', w')"
          by (auto split: sum.splits)
        with 3[OF False True] show ?thesis by blast
      next
        case nope: False
        with r False have "w' = w" by auto
        then show ?thesis by simp
      qed
    qed
  qed
next
  case (4 c w)
  then show ?case by simp
next
  case (5 c k ks w)
  show ?case
  proof (intro allI impI)
    fix ns w'
    assume r: "processChildren c (k # ks) w = Inr (ns, w')"
    then obtain r1 w1 rs where a: "processNode c k w = Inr (r1, w1)"
      and b: "processChildren c ks w1 = Inr (rs, w')"
      by (auto split: sum.splits)
    from 5(1) a obtain e1 where e1: "converted w1 = converted w @ e1"
      "needsUpdate w1 = (needsUpdate w \<or> e1 \<noteq> [])" by blast
    from 5(2)[OF a refl] b obtain e2 where e2: "converted w' = converted w1 @ e2"
      "needsUpdate w' = (needsUpdate w1 \<or> e2 \<noteq> [])" by blast
    from e1 e2 show "\<exists>ext. converted w' = converted w @ ext \<and> needsUpdate w' = (needsUpdate w \<or> ext \<noteq> [])"
      by (intro exI[of _ "e1 @ e2"]) auto
  qed
qed

lemma processNode_flag:
  assumes "processNode c node \<lparr>needsUpdate = False, converted = h\<rparr> = Inr (ns, w)"
  shows "needsUpdate w = (converted w \<noteq> h)"
  using processNode_flag_both(1)[of c node "\<lparr>needsUpdate = False, converted = h\<rparr>"] assms by auto

text \<open>
  C8. For a file that is read and walked without a throw: when a conversion was made
  (however many), the file written at the target is the serialized document whose head
  is the head of the parsed document with one \<^verbatim>\<open>style\<close> element of id \<^verbatim>\<open>MJX-SVG-styles\<close>
  appended, and \<^verbatim>\<open>rendered\<close> is counted; when none was made, the target gets the
  content of the source as it is, nothing is serialized, no element is added, and
  \<^verbatim>\<open>copied\<close> is counted.
\<close>

theorem processHtml_one_stylesheet_or_copy:
  assumes "readFileSync (disk s) sourcePath = Inr html"
    and "body (parseDocument c html) = b # rest"
    and "processNode c b \<lparr>needsUpdate = False, converted = mj s\<rparr> = Inr (ns, w)"
  shows "processHtml c sourcePath targetPath s =
     (if converted w \<noteq> mj s then
        Inr (s\<lparr>disk := (disk s)(targetPath \<mapsto> Regular (serialize c
                    ((parseDocument c html)
                       \<lparr>body := ns @ rest,
                        head := head (parseDocument c html)
                                  @ [Element Html ''STYLE'' [(''id'', ''MJX-SVG-styles'')]
                                       (if styleSheet c (converted w) = [] then []
                                        else [Text (styleSheet c (converted w))])]\<rparr>))),
               stat := (stat s)\<lparr>rendered := rendered (stat s) + 1\<rparr>,
               mj := converted w,
               console := console s @ [RENDER sourcePath]\<rparr>)
      else
        Inr (s\<lparr>disk := (disk s)(targetPath \<mapsto> Regular html),
               stat := (stat s)\<lparr>copied := copied (stat s) + 1\<rparr>\<rparr>))"
proof -
  note f = processNode_flag[OF assms(3)]
  show ?thesis
  proof (cases "converted w \<noteq> mj s")
    case True
    with f assms show ?thesis
      by (simp add: processHtml_def writeFileSync_def styleTag_def Let_def)
  next
    case False
    with f assms show ?thesis
      by (simp add: processHtml_def copyFileSync_def silent_def)
  qed
qed

theorem processHtml_one_stylesheet_or_copy_witness:
  "readFileSync [''/Users/ntalbs/Blog/public/p.html'' \<mapsto> Regular ''$x$ and $y$'']
       ''/Users/ntalbs/Blog/public/p.html'' = Inr ''$x$ and $y$''
   \<and> body (parseDocument demoCollab ''$x$ and $y$'') = Element Html ''BODY'' [] [Text ''$x$ and $y$''] # []
   \<and> processNode demoCollab (Element Html ''BODY'' [] [Text ''$x$ and $y$''])
         \<lparr>needsUpdate = False, converted = []\<rparr>
       = Inr ([Element Html ''BODY'' [] [Text ''<I>x</I> and <I>y</I>'']],
              \<lparr>needsUpdate = True, converted = [(''x'', False), (''y'', False)]\<rparr>)
   \<and> processHtml demoCollab ''/Users/ntalbs/Blog/public/p.html''
         ''/Users/ntalbs/Blog/rendered-public/p.html''
         \<lparr>cache = Map.empty, stat = emptyCounters,
          disk = [''/Users/ntalbs/Blog/public/p.html'' \<mapsto> Regular ''$x$ and $y$''],
          mj = [], console = []\<rparr>
       = Inr \<lparr>cache = Map.empty,
              stat = \<lparr>directories = 0, rendered = 1, copied = 0, skipped = 0\<rparr>,
              disk = [''/Users/ntalbs/Blog/public/p.html'' \<mapsto> Regular ''$x$ and $y$'',
                      ''/Users/ntalbs/Blog/rendered-public/p.html''
                        \<mapsto> Regular (serialize demoCollab
                            \<lparr>prolog = [],
                             head = [Element Html ''STYLE'' [(''id'', ''MJX-SVG-styles'')] [Text ''css'']],
                             body = [Element Html ''BODY'' [] [Text ''<I>x</I> and <I>y</I>'']]\<rparr>)],
              mj = [(''x'', False), (''y'', False)],
              console = [RENDER ''/Users/ntalbs/Blog/public/p.html'']\<rparr>"
proof -
  have r: "readFileSync [''/Users/ntalbs/Blog/public/p.html'' \<mapsto> Regular ''$x$ and $y$'']
       ''/Users/ntalbs/Blog/public/p.html'' = Inr ''$x$ and $y$''"
    by (simp add: readFileSync_def)
  have b: "body (parseDocument demoCollab ''$x$ and $y$'') = Element Html ''BODY'' [] [Text ''$x$ and $y$''] # []"
    by (simp add: demoCollab_def)
  have p: "processNode demoCollab (Element Html ''BODY'' [] [Text ''$x$ and $y$''])
         \<lparr>needsUpdate = False, converted = []\<rparr>
       = Inr ([Element Html ''BODY'' [] [Text ''<I>x</I> and <I>y</I>'']],
              \<lparr>needsUpdate = True, converted = [(''x'', False), (''y'', False)]\<rparr>)"
    by (simp add: processText_def displayCallback_def inlineCallback_def mjConvert_def demoCollab_def)
  from processHtml_one_stylesheet_or_copy
    [of "\<lparr>cache = Map.empty, stat = emptyCounters,
          disk = [''/Users/ntalbs/Blog/public/p.html'' \<mapsto> Regular ''$x$ and $y$''],
          mj = [], console = []\<rparr>"
        "''/Users/ntalbs/Blog/public/p.html''" "''$x$ and $y$''" demoCollab
        "Element Html ''BODY'' [] [Text ''$x$ and $y$'']" "[]"
        "[Element Html ''BODY'' [] [Text ''<I>x</I> and <I>y</I>'']]"
        "\<lparr>needsUpdate = True, converted = [(''x'', False), (''y'', False)]\<rparr>"
        "''/Users/ntalbs/Blog/rendered-public/p.html''"]
    r b p
  show ?thesis
    by (simp add: emptyCounters_def demoCollab_def)
qed

section \<open>Marked blocks\<close>

lemma subnodesL_self: "set xs \<subseteq> set (subnodesL xs)"
proof (induction xs)
  case Nil
  then show ?case by simp
next
  case (Cons x xs)
  with subnodes_self[of x] show ?case by auto
qed

text \<open>Each child of a list that is walked gets its call, and what it returns stays.\<close>

lemma processChildren_visit:
  "processChildren c kids w1 = Inr (kids', w2) \<Longrightarrow> k \<in> set kids \<Longrightarrow>
   \<exists>wa r wb pre post. processNode c k wa = Inr (r, wb) \<and> set r \<subseteq> set kids'
      \<and> converted wa = converted w1 @ pre \<and> converted w2 = converted wb @ post"
proof (induction kids arbitrary: w1 kids')
  case Nil
  then show ?case by simp
next
  case (Cons k0 ks)
  from Cons.prems(1) obtain r0 wm rs where a: "processNode c k0 w1 = Inr (r0, wm)"
    and b: "processChildren c ks wm = Inr (rs, w2)" and kids': "kids' = r0 @ rs"
    by (auto split: sum.splits)
  from processNode_flag_both(1)[of c k0 w1] a obtain e1 where e1: "converted wm = converted w1 @ e1"
    by blast
  from processNode_flag_both(2)[of c ks wm] b obtain e2 where e2: "converted w2 = converted wm @ e2"
    by blast
  show ?case
  proof (cases "k = k0")
    case True
    with a e2 kids' show ?thesis
      by (intro exI[of _ w1] exI[of _ r0] exI[of _ wm] exI[of _ "[]"] exI[of _ e2]) simp
  next
    case False
    with Cons.prems(2) have "k \<in> set ks" by simp
    from Cons.IH[OF b this] obtain wa r wb pre post where
      v: "processNode c k wa = Inr (r, wb)" "set r \<subseteq> set rs"
         "converted wa = converted wm @ pre" "converted w2 = converted wb @ post"
      by blast
    with e1 kids' show ?thesis
      by (intro exI[of _ wa] exI[of _ r] exI[of _ wb] exI[of _ "e1 @ pre"] exI[of _ post]) auto
  qed
qed

text \<open>Each node the walk comes to gets its call, and what it returns is in the tree at the end.\<close>

lemma walked_visit:
  assumes "walked root x" and "processNode c root w0 = Inr (ns, w')"
  shows "\<exists>w1 r w2 pre post. processNode c x w1 = Inr (r, w2) \<and> set r \<subseteq> set (subnodesL ns)
      \<and> converted w1 = converted w0 @ pre \<and> converted w' = converted w2 @ post"
  using assms
proof (induction rule: walked.induct)
  case (start root)
  with subnodesL_self[of ns] show ?case
    by (intro exI[of _ w0] exI[of _ ns] exI[of _ w'] exI[of _ "[]"]) simp
next
  case (down root x k)
  from down.IH[OF down.prems] obtain w1 r w2 pre post where
    v: "processNode c x w1 = Inr (r, w2)" "set r \<subseteq> set (subnodesL ns)"
       "converted w1 = converted w0 @ pre" "converted w' = converted w2 @ post"
    by blast
  from down.hyps(6) obtain sp n a kids where x: "x = Element sp n a kids"
    by (cases x) auto
  with down.hyps have k: "k \<in> set kids" and nm: "className (Element sp n a kids) \<noteq> Some ''latex-block''"
    and nn: "n \<noteq> ''SCRIPT'' \<and> n \<noteq> ''CODE'' \<and> n \<noteq> ''PRE''"
    by simp_all
  from v(1) x nm nn obtain kids' where pc: "processChildren c kids w1 = Inr (kids', w2)"
    and r: "r = [Element sp n a kids']"
    by (auto split: sum.splits)
  from processChildren_visit[OF pc k] obtain wa rk wb pre2 post2 where
    u: "processNode c k wa = Inr (rk, wb)" "set rk \<subseteq> set kids'"
       "converted wa = converted w1 @ pre2" "converted w2 = converted wb @ post2"
    by blast
  from v(2) r have "Element sp n a kids' \<in> set (subnodesL ns)" by simp
  from subnodes_trans(2)[OF this] have "set (subnodesL kids') \<subseteq> set (subnodesL ns)" by auto
  with u(2) subnodesL_self[of kids'] have "set rk \<subseteq> set (subnodesL ns)" by blast
  with u v show ?case
    by (intro exI[of _ wa] exI[of _ rk] exI[of _ wb] exI[of _ "pre @ pre2"] exI[of _ "post2 @ post"])
       simp
qed

text \<open>
  C7, as the code has it. The marked elements are those whose \<^verbatim>\<open>className\<close> is the string
  \<^verbatim>\<open>latex-block\<close> and nothing more (an HTML element whose class attribute is exactly
  that), and the walk has to come to them. On such an element \<open>processNode\<close> hands the
  whole text content to the typesetter once, in display mode (the one pair added to
  the conversions), and the element gives way to the parsed container markup; the text
  is not scanned for delimiters; a throw of the typesetter is the result when it
  throws. And in a walk from a root that comes to the element and ends without a throw,
  that one display conversion of its text content is among the conversions of the
  walk, and the nodes parsed from its container markup are nodes of the tree at the end.
\<close>

theorem latex_block_typeset_where_walked:
  assumes "className (Element sp n a kids) = Some ''latex-block''"
  shows "processNode c (Element sp n a kids) w =
    (case convert c (converted w) (textContent (Element sp n a kids)) True of
       Inl e \<Rightarrow> Inl e
     | Inr svg \<Rightarrow>
         Inr (parseFragment c (containerOpen @ svg @ containerClose),
              \<lparr>needsUpdate = True,
               converted = converted w @ [(textContent (Element sp n a kids), True)]\<rparr>))
   \<and> (walked root (Element sp n a kids) \<and> processNode c root w0 = Inr (ns, w') \<longrightarrow>
        (\<exists>before svg after.
            convert c (converted w0 @ before) (textContent (Element sp n a kids)) True = Inr svg
          \<and> converted w' =
              converted w0 @ before @ [(textContent (Element sp n a kids), True)] @ after
          \<and> set (parseFragment c (containerOpen @ svg @ containerClose)) \<subseteq> set (subnodesL ns)))"
proof (intro conjI impI)
  show one: "processNode c (Element sp n a kids) w =
    (case convert c (converted w) (textContent (Element sp n a kids)) True of
       Inl e \<Rightarrow> Inl e
     | Inr svg \<Rightarrow>
         Inr (parseFragment c (containerOpen @ svg @ containerClose),
              \<lparr>needsUpdate = True,
               converted = converted w @ [(textContent (Element sp n a kids), True)]\<rparr>))" for w
    using assms by (simp add: processBlock_def mjConvert_def split: sum.splits)
  assume a: "walked root (Element sp n a kids) \<and> processNode c root w0 = Inr (ns, w')"
  then have wk: "walked root (Element sp n a kids)" and run: "processNode c root w0 = Inr (ns, w')"
    by simp_all
  from walked_visit[OF wk run] obtain w1 r w2 pre post where
    v: "processNode c (Element sp n a kids) w1 = Inr (r, w2)" "set r \<subseteq> set (subnodesL ns)"
       "converted w1 = converted w0 @ pre" "converted w' = converted w2 @ post"
    by blast
  from v(1) one[of w1] obtain svg where
    cv: "convert c (converted w1) (textContent (Element sp n a kids)) True = Inr svg"
    and r: "r = parseFragment c (containerOpen @ svg @ containerClose)"
    and w2: "converted w2 = converted w1 @ [(textContent (Element sp n a kids), True)]"
    by (auto split: sum.splits)
  from cv r w2 v show "\<exists>before svg after.
            convert c (converted w0 @ before) (textContent (Element sp n a kids)) True = Inr svg
          \<and> converted w' =
              converted w0 @ before @ [(textContent (Element sp n a kids), True)] @ after
          \<and> set (parseFragment c (containerOpen @ svg @ containerClose)) \<subseteq> set (subnodesL ns)"
    by (intro exI[of _ pre] exI[of _ svg] exI[of _ post]) simp
qed

theorem latex_block_typeset_where_walked_witness:
  "className (Element Html ''DIV'' [(''class'', ''latex-block'')]
       [Text ''$x$ + $$y$$'', Element Html ''B'' [] [Text ''z'']]) = Some ''latex-block''
   \<and> processNode demoCollab
        (Element Html ''DIV'' [(''class'', ''latex-block'')]
           [Text ''$x$ + $$y$$'', Element Html ''B'' [] [Text ''z'']])
        \<lparr>needsUpdate = False, converted = []\<rparr>
       = Inr ([Text (containerOpen @ ''<D>$x$ + $$y$$z</D>'' @ containerClose)],
              \<lparr>needsUpdate = True, converted = [(''$x$ + $$y$$z'', True)]\<rparr>)
   \<and> walked
        (Element Html ''BODY'' []
           [Text ''$u$'',
            Element Html ''DIV'' [(''class'', ''latex-block'')]
              [Text ''$x$ + $$y$$'', Element Html ''B'' [] [Text ''z'']]])
        (Element Html ''DIV'' [(''class'', ''latex-block'')]
           [Text ''$x$ + $$y$$'', Element Html ''B'' [] [Text ''z'']])
   \<and> processNode demoCollab
        (Element Html ''BODY'' []
           [Text ''$u$'',
            Element Html ''DIV'' [(''class'', ''latex-block'')]
              [Text ''$x$ + $$y$$'', Element Html ''B'' [] [Text ''z'']]])
        \<lparr>needsUpdate = False, converted = []\<rparr>
       = Inr ([Element Html ''BODY'' []
                 [Text ''<I>u</I>'',
                  Text (containerOpen @ ''<D>$x$ + $$y$$z</D>'' @ containerClose)]],
              \<lparr>needsUpdate = True, converted = [(''u'', False), (''$x$ + $$y$$z'', True)]\<rparr>)
   \<and> (\<exists>before svg after.
          convert demoCollab ([] @ before) ''$x$ + $$y$$z'' True = Inr svg
        \<and> [(''u'', False), (''$x$ + $$y$$z'', True)] = [] @ before @ [(''$x$ + $$y$$z'', True)] @ after
        \<and> set (parseFragment demoCollab (containerOpen @ svg @ containerClose))
            \<subseteq> set (subnodesL [Element Html ''BODY'' []
                 [Text ''<I>u</I>'',
                  Text (containerOpen @ ''<D>$x$ + $$y$$z</D>'' @ containerClose)]]))"
proof -
  let ?div = "Element Html ''DIV'' [(''class'', ''latex-block'')]
           [Text ''$x$ + $$y$$'', Element Html ''B'' [] [Text ''z'']]"
  let ?root = "Element Html ''BODY'' [] [Text ''$u$'', ?div]"
  let ?w0 = "\<lparr>needsUpdate = False, converted = []\<rparr>"
  let ?out = "[Element Html ''BODY'' []
                 [Text ''<I>u</I>'',
                  Text (containerOpen @ ''<D>$x$ + $$y$$z</D>'' @ containerClose)]]"
  let ?w' = "\<lparr>needsUpdate = True, converted = [(''u'', False), (''$x$ + $$y$$z'', True)]\<rparr>"
  have cn: "className ?div = Some ''latex-block''" by simp
  have wk: "walked ?root ?div"
    by (rule walked.down [where x = ?root], rule walked.start) simp_all
  have run: "processNode demoCollab ?root ?w0 = Inr (?out, ?w')"
    by (simp add: processText_def processBlock_def displayCallback_def inlineCallback_def
          mjConvert_def demoCollab_def)
  note inst = latex_block_typeset_where_walked
    [OF cn, of demoCollab ?w0 ?root ?w0 ?out ?w']
  from inst have one: "processNode demoCollab ?div ?w0
       = Inr ([Text (containerOpen @ ''<D>$x$ + $$y$$z</D>'' @ containerClose)],
              \<lparr>needsUpdate = True, converted = [(''$x$ + $$y$$z'', True)]\<rparr>)"
    by (simp add: demoCollab_def)
  from inst wk run have two: "\<exists>before svg after.
          convert demoCollab ([] @ before) ''$x$ + $$y$$z'' True = Inr svg
        \<and> [(''u'', False), (''$x$ + $$y$$z'', True)] = [] @ before @ [(''$x$ + $$y$$z'', True)] @ after
        \<and> set (parseFragment demoCollab (containerOpen @ svg @ containerClose)) \<subseteq> set (subnodesL ?out)"
    by simp
  from cn one wk run two show ?thesis by blast
qed

text \<open>
  C7 as it is written fails where the class is carried but \<^verbatim>\<open>className\<close> is not the string
  \<^verbatim>\<open>latex-block\<close>, and where the walk does not come to the element. A \<^verbatim>\<open>DIV\<close> of class
  \<^verbatim>\<open>latex-block note\<close> is descended into and its text scanned (an inline conversion of
  \<^verbatim>\<open>x\<close>); so is an SVG element of class \<^verbatim>\<open>latex-block\<close>; and a marked \<^verbatim>\<open>DIV\<close> inside a
  plain \<^verbatim>\<open>PRE\<close> is left as it is, with no conversion.
\<close>

theorem marker_class_counterexample:
  "processNode demoCollab
      (Element Html ''DIV'' [(''class'', ''latex-block note'')] [Text ''$x$''])
      \<lparr>needsUpdate = False, converted = []\<rparr>
     = Inr ([Element Html ''DIV'' [(''class'', ''latex-block note'')] [Text ''<I>x</I>'']],
            \<lparr>needsUpdate = True, converted = [(''x'', False)]\<rparr>)
   \<and> processNode demoCollab
      (Element Svg ''svg'' [(''class'', ''latex-block'')] [Text ''$x$''])
      \<lparr>needsUpdate = False, converted = []\<rparr>
     = Inr ([Element Svg ''svg'' [(''class'', ''latex-block'')] [Text ''<I>x</I>'']],
            \<lparr>needsUpdate = True, converted = [(''x'', False)]\<rparr>)
   \<and> processNode demoCollab
      (Element Html ''PRE'' [] [Element Html ''DIV'' [(''class'', ''latex-block'')] [Text ''a^2'']])
      \<lparr>needsUpdate = False, converted = []\<rparr>
     = Inr ([Element Html ''PRE'' [] [Element Html ''DIV'' [(''class'', ''latex-block'')] [Text ''a^2'']]],
            \<lparr>needsUpdate = False, converted = []\<rparr>)"
  by (simp add: processText_def displayCallback_def inlineCallback_def mjConvert_def
        demoCollab_def)




section \<open>Stale sidecar files\<close>

text \<open>
  C9. A file (not a directory) whose name ends with \<^verbatim>\<open>.md5\<close> is left alone by \<open>process\<close>:
  the state it returns is the state it was given, so no counter moves, the cache is as
  it was whatever it held, the disk is as it was and nothing was converted or printed.
\<close>

theorem process_md5_sidecar_ignored:
  assumes "statSync (disk s) sourcePath = Inr False"
    and "endsWith sourcePath ''.md5''"
  shows "process c sourcePath s = Inr s"
  using assms by (simp add: process_def)

theorem process_md5_sidecar_ignored_witness:
  "statSync [''/Users/ntalbs/Blog/public/a.html.md5'' \<mapsto> Regular ''abc'']
       ''/Users/ntalbs/Blog/public/a.html.md5'' = Inr False
   \<and> endsWith ''/Users/ntalbs/Blog/public/a.html.md5'' ''.md5''
   \<and> process demoCollab ''/Users/ntalbs/Blog/public/a.html.md5''
         \<lparr>cache = Map.empty, stat = emptyCounters,
          disk = [''/Users/ntalbs/Blog/public/a.html.md5'' \<mapsto> Regular ''abc''],
          mj = [], console = []\<rparr>
       = Inr \<lparr>cache = Map.empty, stat = emptyCounters,
              disk = [''/Users/ntalbs/Blog/public/a.html.md5'' \<mapsto> Regular ''abc''],
              mj = [], console = []\<rparr>"
  using process_md5_sidecar_ignored
    [of "\<lparr>cache = Map.empty, stat = emptyCounters,
          disk = [''/Users/ntalbs/Blog/public/a.html.md5'' \<mapsto> Regular ''abc''],
          mj = [], console = []\<rparr>"
        "''/Users/ntalbs/Blog/public/a.html.md5''" demoCollab]
  by (simp add: statSync_def endsWith_def)

section \<open>A throw ends the run\<close>

lemma forEach_append:
  "forEach c (xs @ ys) s = (case forEach c xs s of Inl e \<Rightarrow> Inl e | Inr s1 \<Rightarrow> forEach c ys s1)"
  by (induction xs arbitrary: s) (auto split: sum.splits)

lemma mkdir_fold_existing:
  "d q \<noteq> None \<Longrightarrow> fold (\<lambda>q f. if f q = None then f(q \<mapsto> Directory) else f) qs d q = d q"
  by (induction qs arbitrary: d) auto

lemma ensureDir_existing: "d q \<noteq> None \<Longrightarrow> ensureDir d dir q = d q"
  by (simp add: ensureDir_def mkdirSync_def mkdir_fold_existing)

text \<open>
  C2, as the code has it. Nothing catches a throw, so a failure on one file is not
  isolated: the run ends there. When the files before \<open>p\<close> went through and \<open>process\<close>
  throws on \<open>p\<close>, the whole run is that throw, with the state of its moment: the files
  after \<open>p\<close> are not looked at, the cache file is not written and no summary is
  printed. A file that cannot be read throws in the fingerprint, with its path in the
  error and the state (its cache entry too) as it was. When the typesetter throws on an
  HTML file, the entry of the file has been set to the new fingerprint in memory
  before, and is lost with the run.
\<close>

theorem failure_ends_the_run:
  "(loadCache c d = Inr loaded
      \<and> globSync c (blogRoot @ ''/'' @ publicDir @ ''/**/*'') d = xs @ p # ys
      \<and> forEach c xs \<lparr>cache = loaded, stat = \<lparr>directories = 0, rendered = 0, copied = 0, skipped = 0\<rparr>,
                      disk = d, mj = [], console = [StartProcessing (length (xs @ p # ys))]\<rparr> = Inr s1
      \<and> process c p s1 = Inl (e, s2)
    \<longrightarrow> main c d = Inl (e, s2))
   \<and> (disk s q = Some Unreadable \<and> \<not> endsWith q ''.md5''
    \<longrightarrow> process c q s = Inl (IOError q, s))
   \<and> (disk s q = Some (Regular html) \<and> \<not> endsWith q ''.md5'' \<and> endsWith q ''.html''
      \<and> cache s q \<noteq> Some (md5hex c html)
      \<and> body (parseDocument c html) = b # rest
      \<and> processNode c b \<lparr>needsUpdate = False, converted = mj s\<rparr> = Inl e'
    \<longrightarrow> process c q s =
          Inl (e', s\<lparr>cache := (cache s)(q \<mapsto> md5hex c html),
                     disk := ensureDir (disk s) (dirname (getTargetPathFrom q))\<rparr>))"
proof (intro conjI impI)
  assume a: "loadCache c d = Inr loaded
      \<and> globSync c (blogRoot @ ''/'' @ publicDir @ ''/**/*'') d = xs @ p # ys
      \<and> forEach c xs \<lparr>cache = loaded, stat = \<lparr>directories = 0, rendered = 0, copied = 0, skipped = 0\<rparr>,
                      disk = d, mj = [], console = [StartProcessing (length (xs @ p # ys))]\<rparr> = Inr s1
      \<and> process c p s1 = Inl (e, s2)"
  then have "forEach c (xs @ p # ys) \<lparr>cache = loaded, stat = \<lparr>directories = 0, rendered = 0, copied = 0, skipped = 0\<rparr>,
                      disk = d, mj = [], console = [StartProcessing (length (xs @ p # ys))]\<rparr> = Inl (e, s2)"
    by (simp add: forEach_append)
  with a show "main c d = Inl (e, s2)"
    by (simp add: main_def Let_def)
next
  assume "disk s q = Some Unreadable \<and> \<not> endsWith q ''.md5''"
  then show "process c q s = Inl (IOError q, s)"
    by (simp add: process_def statSync_def isSrcNotChanged_def md5_def readFileSync_def)
next
  assume a: "disk s q = Some (Regular html) \<and> \<not> endsWith q ''.md5'' \<and> endsWith q ''.html''
      \<and> cache s q \<noteq> Some (md5hex c html)
      \<and> body (parseDocument c html) = b # rest
      \<and> processNode c b \<lparr>needsUpdate = False, converted = mj s\<rparr> = Inl e'"
  then have r: "readFileSync (ensureDir (disk s) (dirname (getTargetPathFrom q))) q = Inr html"
    by (simp add: readFileSync_def ensureDir_existing)
  from a r show "process c q s =
          Inl (e', s\<lparr>cache := (cache s)(q \<mapsto> md5hex c html),
                     disk := ensureDir (disk s) (dirname (getTargetPathFrom q))\<rparr>)"
    by (simp add: process_def statSync_def isSrcNotChanged_def md5_def readFileSync_def
          processHtml_def Let_def)
qed

theorem failure_ends_the_run_witness:
  "main (demoCollab\<lparr>globSync := (\<lambda>pattern d.
               [''/Users/ntalbs/Blog/public/u.txt'', ''/Users/ntalbs/Blog/public/v.txt''])\<rparr>)
     [''/Users/ntalbs/Blog/public/u.txt'' \<mapsto> Unreadable,
      ''/Users/ntalbs/Blog/public/v.txt'' \<mapsto> Regular ''v'']
   = Inl (IOError ''/Users/ntalbs/Blog/public/u.txt'',
          \<lparr>cache = Map.empty, stat = \<lparr>directories = 0, rendered = 0, copied = 0, skipped = 0\<rparr>,
           disk = [''/Users/ntalbs/Blog/public/u.txt'' \<mapsto> Unreadable,
                   ''/Users/ntalbs/Blog/public/v.txt'' \<mapsto> Regular ''v''],
           mj = [], console = [StartProcessing 2]\<rparr>)
   \<and> process (demoCollab\<lparr>convert := (\<lambda>h texStr display. Inl (RenderError texStr))\<rparr>)
        ''/Users/ntalbs/Blog/public/p.html''
        \<lparr>cache = Map.empty, stat = emptyCounters,
         disk = [''/Users/ntalbs/Blog/public/p.html'' \<mapsto> Regular ''$x$''],
         mj = [], console = []\<rparr>
     = Inl (RenderError ''x'',
          \<lparr>cache = [''/Users/ntalbs/Blog/public/p.html'' \<mapsto> ''$x$''], stat = emptyCounters,
           disk = ensureDir [''/Users/ntalbs/Blog/public/p.html'' \<mapsto> Regular ''$x$'']
                    (dirname (getTargetPathFrom ''/Users/ntalbs/Blog/public/p.html'')),
           mj = [], console = []\<rparr>)"
proof -
  let ?c = "demoCollab\<lparr>globSync := (\<lambda>pattern d.
               [''/Users/ntalbs/Blog/public/u.txt'', ''/Users/ntalbs/Blog/public/v.txt''])\<rparr>"
  let ?d = "[''/Users/ntalbs/Blog/public/u.txt'' \<mapsto> Unreadable,
             ''/Users/ntalbs/Blog/public/v.txt'' \<mapsto> Regular ''v'']"
  let ?s = "\<lparr>cache = Map.empty, stat = \<lparr>directories = 0, rendered = 0, copied = 0, skipped = 0\<rparr>,
             disk = ?d, mj = [],
             console = [StartProcessing (length ([] @ ''/Users/ntalbs/Blog/public/u.txt''
                          # [''/Users/ntalbs/Blog/public/v.txt'']))]\<rparr>"
  let ?f = "demoCollab\<lparr>convert := (\<lambda>h texStr display. Inl (RenderError texStr))\<rparr>"
  let ?t = "\<lparr>cache = Map.empty, stat = emptyCounters,
         disk = [''/Users/ntalbs/Blog/public/p.html'' \<mapsto> Regular ''$x$''],
         mj = [], console = []\<rparr>"
  have load: "loadCache ?c ?d = Inr Map.empty"
    by (simp add: loadCache_def existsSync_def cacheFile_def blogRoot_def targetDir_def)
  have glob: "globSync ?c (blogRoot @ ''/'' @ publicDir @ ''/**/*'') ?d
      = [] @ ''/Users/ntalbs/Blog/public/u.txt'' # [''/Users/ntalbs/Blog/public/v.txt'']"
    by (simp add: demoCollab_def)
  have before: "forEach ?c [] ?s = Inr ?s" by simp
  have unread: "disk ?s ''/Users/ntalbs/Blog/public/u.txt'' = Some Unreadable
      \<and> \<not> endsWith ''/Users/ntalbs/Blog/public/u.txt'' ''.md5''"
    by (simp add: endsWith_def)
  from failure_ends_the_run
    [of ?c ?d Map.empty "[]" "''/Users/ntalbs/Blog/public/u.txt''"
        "[''/Users/ntalbs/Blog/public/v.txt'']" ?s "IOError ''/Users/ntalbs/Blog/public/u.txt''" ?s
        ?s "''/Users/ntalbs/Blog/public/u.txt''"]
    unread
  have thrown: "process ?c ''/Users/ntalbs/Blog/public/u.txt'' ?s
      = Inl (IOError ''/Users/ntalbs/Blog/public/u.txt'', ?s)"
    by blast
  from failure_ends_the_run
    [of ?c ?d Map.empty "[]" "''/Users/ntalbs/Blog/public/u.txt''"
        "[''/Users/ntalbs/Blog/public/v.txt'']" ?s "IOError ''/Users/ntalbs/Blog/public/u.txt''" ?s]
    load glob before thrown
  have run: "main ?c ?d = Inl (IOError ''/Users/ntalbs/Blog/public/u.txt'', ?s)"
    by blast
  have html: "disk ?t ''/Users/ntalbs/Blog/public/p.html'' = Some (Regular ''$x$'')
      \<and> \<not> endsWith ''/Users/ntalbs/Blog/public/p.html'' ''.md5''
      \<and> endsWith ''/Users/ntalbs/Blog/public/p.html'' ''.html''
      \<and> cache ?t ''/Users/ntalbs/Blog/public/p.html'' \<noteq> Some (md5hex ?f ''$x$'')
      \<and> body (parseDocument ?f ''$x$'') = Element Html ''BODY'' [] [Text ''$x$''] # []
      \<and> processNode ?f (Element Html ''BODY'' [] [Text ''$x$''])
            \<lparr>needsUpdate = False, converted = mj ?t\<rparr> = Inl (RenderError ''x'')"
    by (simp add: endsWith_def demoCollab_def processText_def inlineCallback_def mjConvert_def)
  from failure_ends_the_run
    [of ?f _ _ _ _ _ _ _ _ ?t "''/Users/ntalbs/Blog/public/p.html''" "''$x$''"
        "Element Html ''BODY'' [] [Text ''$x$'']" "[]" "RenderError ''x''"]
    html
  have render: "process ?f ''/Users/ntalbs/Blog/public/p.html'' ?t
     = Inl (RenderError ''x'',
          ?t\<lparr>cache := (cache ?t)(''/Users/ntalbs/Blog/public/p.html'' \<mapsto> md5hex ?f ''$x$''),
              disk := ensureDir (disk ?t) (dirname (getTargetPathFrom ''/Users/ntalbs/Blog/public/p.html''))\<rparr>)"
    by blast
  from run render show ?thesis
    by (simp add: demoCollab_def)
qed

text \<open>
  C2 as it is written fails: with the first of two files unreadable, the run ends on
  it, and the second file, a readable one, is never copied (the disk at the end is the
  disk at the start).
\<close>

theorem failure_isolation_counterexample:
  "main (listing [''/Users/ntalbs/Blog/public/a.txt'', ''/Users/ntalbs/Blog/public/b.txt''])
     [''/Users/ntalbs/Blog/public/a.txt'' \<mapsto> Unreadable,
      ''/Users/ntalbs/Blog/public/b.txt'' \<mapsto> Regular ''b'']
   = Inl (IOError ''/Users/ntalbs/Blog/public/a.txt'',
          \<lparr>cache = Map.empty, stat = emptyCounters,
           disk = [''/Users/ntalbs/Blog/public/a.txt'' \<mapsto> Unreadable,
                   ''/Users/ntalbs/Blog/public/b.txt'' \<mapsto> Regular ''b''],
           mj = [], console = [StartProcessing 2]\<rparr>)"
  by (simp add: main_def loadCache_def existsSync_def cacheFile_def blogRoot_def targetDir_def
        publicDir_def listing_def demoCollab_def process_def statSync_def isSrcNotChanged_def
        md5_def readFileSync_def endsWith_def emptyCounters_def)

section \<open>The change cache\<close>















section \<open>The force option\<close>

text \<open>
  C1. The module reads no command line, and \<open>process\<close> and \<open>isSrcNotChanged\<close> have no
  parameter through which an option could reach them: \<^verbatim>\<open>index.js\<close> declares \<^verbatim>\<open>--force\<close>
  (``force render'') and hands the options to a function \<^verbatim>\<open>render\<close> that
  \<^verbatim>\<open>math-renderer.js\<close> does not define. A run started with \<^verbatim>\<open>--force\<close> is therefore the
  run modelled here, and in it the cache is consulted for every file: a file whose
  stored fingerprint is the hash of its content is reported unchanged and skipped.
\<close>

theorem matching_fingerprint_is_skipped:
  assumes "disk s p = Some (Regular content)" and "\<not> endsWith p ''.md5''"
    and "cache s p = Some (md5hex c content)"
  shows "isSrcNotChanged c p s = Inr (True, s)
       \<and> process c p s = Inr (s\<lparr>stat := (stat s)\<lparr>skipped := skipped (stat s) + 1\<rparr>\<rparr>)"
  using assms
  by (simp add: process_def statSync_def isSrcNotChanged_def md5_def readFileSync_def
        silent_def Let_def)

theorem matching_fingerprint_is_skipped_witness:
  "main (demoCollab\<lparr>globSync := (\<lambda>pattern d. [''/Users/ntalbs/Blog/public/n.txt'']),
                     jsonParse := (\<lambda>content. Inr [''/Users/ntalbs/Blog/public/n.txt'' \<mapsto> ''abc''])\<rparr>)
      [''/Users/ntalbs/Blog/public/n.txt'' \<mapsto> Regular ''abc'',
       ''/Users/ntalbs/Blog/rendered-public/math-cache.json'' \<mapsto> Regular ''{}'']
    = Inr \<lparr>cache = [''/Users/ntalbs/Blog/public/n.txt'' \<mapsto> ''abc''],
           stat = \<lparr>directories = 0, rendered = 0, copied = 0, skipped = 1\<rparr>,
           disk = [''/Users/ntalbs/Blog/public/n.txt'' \<mapsto> Regular ''abc'',
                   ''/Users/ntalbs/Blog/rendered-public/math-cache.json'' \<mapsto> Regular []],
           mj = [],
           console = [StartProcessing 1,
                      Completed \<lparr>directories = 0, rendered = 0, copied = 0, skipped = 1\<rparr> 1]\<rparr>"
proof -
  let ?c = "demoCollab\<lparr>globSync := (\<lambda>pattern d. [''/Users/ntalbs/Blog/public/n.txt'']),
                     jsonParse := (\<lambda>content. Inr [''/Users/ntalbs/Blog/public/n.txt'' \<mapsto> ''abc''])\<rparr>"
  let ?s = "\<lparr>cache = [''/Users/ntalbs/Blog/public/n.txt'' \<mapsto> ''abc''],
            stat = \<lparr>directories = 0, rendered = 0, copied = 0, skipped = 0\<rparr>,
            disk = [''/Users/ntalbs/Blog/public/n.txt'' \<mapsto> Regular ''abc'',
                    ''/Users/ntalbs/Blog/rendered-public/math-cache.json'' \<mapsto> Regular ''{}''],
            mj = [], console = [StartProcessing 1]\<rparr>"
  have "process ?c ''/Users/ntalbs/Blog/public/n.txt'' ?s
      = Inr (?s\<lparr>stat := (stat ?s)\<lparr>skipped := skipped (stat ?s) + 1\<rparr>\<rparr>)"
    using matching_fingerprint_is_skipped[of ?s "''/Users/ntalbs/Blog/public/n.txt''" "''abc''" ?c]
    by (simp add: endsWith_def demoCollab_def)
  then show ?thesis
    by (simp add: main_def loadCache_def existsSync_def readFileSync_def writeFileSync_def
          cacheFile_def blogRoot_def targetDir_def publicDir_def demoCollab_def)
qed

end
